theory Spec2Isabelle
  imports Complex_Main "HOL-Library.Word" "HOL-Library.Sublist"
begin

unbundle bit_operations_syntax

section \<open>Captcha segmentation: \<^verbatim>\<open>extract_characters.py\<close>\<close>

text \<open>
  The development follows \<^verbatim>\<open>extract_characters\<close> of \<^verbatim>\<open>src/extract_characters.py\<close>
  line by line. Arrays are lists of rows, pixels are bytes, Python integers are \<^typ>\<open>int\<close>,
  the parameter dictionary is a partial map, and every \<^verbatim>\<open>raise\<close> is a value of the
  result type. The calls into the image library whose numerics are internal to the library
  (colour conversion, box blur, Otsu threshold, flood fill, rectangle grouping) are fields of a
  record that the pipeline takes as an argument, so every theorem below holds for whatever these
  calls return. The debug canvas (\<^verbatim>\<open>debug_view\<close>, \<^verbatim>\<open>debug_ctr\<close>, the window) is
  presentation only and is left out, except for the one place where the debug branch decides the
  outcome: the modulus by \<^verbatim>\<open>image_w // 20\<close> at line 189.
\<close>

subsection \<open>Data\<close>

type_synonym pixel = "8 word"
type_synonym gray = "pixel list list"
type_synonym bgr = "pixel \<times> pixel \<times> pixel"
type_synonym bgr_image = "bgr list list"
type_synonym rect = "int \<times> int \<times> int \<times> int"
type_synonym params = "string \<rightharpoonup> int"

datatype error =
    Exception string
  | ZeroDivisionError
  | IndexError
  | KeyError string
  | cv2_error

definition then_do :: "error + 'a \<Rightarrow> ('a \<Rightarrow> error + 'b) \<Rightarrow> error + 'b" where
  "then_do r f = (case r of Inl e \<Rightarrow> Inl e | Inr v \<Rightarrow> f v)"

text \<open>A library call that raises \<^verbatim>\<open>cv2.error\<close> is \<^const>\<open>None\<close>.\<close>

definition cv_call :: "'a option \<Rightarrow> error + 'a" where
  "cv_call r = (case r of None \<Rightarrow> Inl cv2_error | Some v \<Rightarrow> Inr v)"

subsection \<open>Python floats\<close>

text \<open>
  A Python float is an IEEE double; it is modelled by the rational it denotes.
  \<open>to_double\<close> rounds a rational to the nearest double, ties to even (53 significant bits;
  the exponent range is not bounded, which is exact for every magnitude between
  \<open>2\<^sup>-\<^sup>1\<^sup>0\<^sup>2\<^sup>2\<close> and \<open>2\<^sup>1\<^sup>0\<^sup>2\<^sup>3\<close>). True division of two integers, the conversion of an
  integer and the product and quotient of two floats are each the correctly rounded exact
  result.
\<close>

function bit_length :: "int \<Rightarrow> int" where
  "bit_length n = (if n \<le> 0 then 0 else 1 + bit_length (n div 2))"
  by pat_completeness auto
termination
  by (relation "measure nat") auto

definition pow2 :: "int \<Rightarrow> rat" where
  "pow2 e = (if 0 \<le> e then 2 ^ nat e else 1 / 2 ^ nat (- e))"

definition round_half_even :: "rat \<Rightarrow> int" where
  "round_half_even q =
     (let f = \<lfloor>q\<rfloor>; r = q - of_int f
      in if r < 1 / 2 then f else if 1 / 2 < r then f + 1 else if even f then f else f + 1)"

definition binade :: "rat \<Rightarrow> int" where
  "binade q =
     (let d = bit_length (fst (quotient_of q)) - bit_length (snd (quotient_of q))
      in if pow2 d \<le> q then d else d - 1)"

definition to_double :: "rat \<Rightarrow> rat" where
  "to_double q =
     (if q = 0 then 0
      else let u = pow2 (binade \<bar>q\<bar> - 52)
           in sgn q * of_int (round_half_even (\<bar>q\<bar> / u)) * u)"

subsection \<open>Parameters (lines 34--49 and 79--84)\<close>

definition PARAMS_DEFAULT :: "(string \<times> int) list" where
  "PARAMS_DEFAULT =
     [(''no_background_mask_blur_kernel_x'', 3),
      (''no_background_mask_blur_kernel_y'', 3),
      (''no_background_mask_threshold'', 180),
      (''no_background_mask_erode_kernel_x'', 3),
      (''no_background_mask_erode_kernel_y'', 2),
      (''floodfill_threshold'', 39),
      (''group_threshold'', 2),
      (''min_character_width'', 34),
      (''max_character_width'', 110),
      (''min_character_height'', 34),
      (''max_character_height'', 110),
      (''min_pixel_density'', 12),
      (''rects_group_threshold'', 2),
      (''rects_group_eps'', 45)]"

text \<open>
  The loop of lines 82--84 over the items of the default table; the dictionary it writes to is
  the caller's own object, so the function returns the state of that object.
\<close>

fun fix_params :: "(string \<times> int) list \<Rightarrow> params \<Rightarrow> params" where
  "fix_params [] p = p"
| "fix_params ((param_key, param_default_val) # items) p =
     fix_params items (if p param_key = None then p(param_key \<mapsto> param_default_val) else p)"

definition lookup :: "params \<Rightarrow> string \<Rightarrow> error + int" where
  "lookup p k = (case p k of None \<Rightarrow> Inl (KeyError k) | Some v \<Rightarrow> Inr v)"

subsection \<open>Arrays\<close>

definition shape0 :: "'a list list \<Rightarrow> nat" where
  "shape0 m = length m"

text \<open>An array without rows has lost its width; the library rejects such an image.\<close>

definition shape1 :: "'a list list \<Rightarrow> nat" where
  "shape1 m = (case m of [] \<Rightarrow> 0 | r # _ \<Rightarrow> length r)"

definition zeros :: "nat \<Rightarrow> nat \<Rightarrow> gray" where
  "zeros h w = replicate h (replicate w 0)"

text \<open>Python's \<^verbatim>\<open>xs[lo:hi]\<close>: a negative bound counts from the end, both are clipped.\<close>

definition py_slice :: "int \<Rightarrow> int \<Rightarrow> 'a list \<Rightarrow> 'a list" where
  "py_slice lo hi xs =
     (let n = int (length xs);
          lo' = (if lo < 0 then max (lo + n) 0 else min lo n);
          hi' = (if hi < 0 then max (hi + n) 0 else min hi n)
      in take (nat (hi' - lo')) (drop (nat lo') xs))"

definition slice2 :: "'a list list \<Rightarrow> int \<Rightarrow> int \<Rightarrow> int \<Rightarrow> int \<Rightarrow> 'a list list" where
  "slice2 m y0 y1 x0 x1 = map (py_slice x0 x1) (py_slice y0 y1 m)"

definition index2 :: "'a list list \<Rightarrow> nat \<Rightarrow> nat \<Rightarrow> error + 'a" where
  "index2 m y x =
     (if y < length m \<and> x < length (m ! y) then Inr (m ! y ! x) else Inl IndexError)"

definition same_shape :: "'a list list \<Rightarrow> 'b list list \<Rightarrow> bool" where
  "same_shape a b = (map length a = map length b)"

definition bitwise_and :: "gray \<Rightarrow> gray \<Rightarrow> gray option" where
  "bitwise_and a b = (if same_shape a b then Some (map2 (map2 (AND)) a b) else None)"

definition bitwise_or :: "gray \<Rightarrow> gray \<Rightarrow> gray option" where
  "bitwise_or a b = (if same_shape a b then Some (map2 (map2 (OR)) a b) else None)"

definition and_bgr :: "bgr \<Rightarrow> bgr \<Rightarrow> bgr" where
  "and_bgr c d =
     (case c of (b1, g1, r1) \<Rightarrow> case d of (b2, g2, r2) \<Rightarrow> (b1 AND b2, g1 AND g2, r1 AND r2))"

definition bitwise_and_bgr :: "bgr_image \<Rightarrow> bgr_image \<Rightarrow> bgr_image option" where
  "bitwise_and_bgr a b = (if same_shape a b then Some (map2 (map2 and_bgr) a b) else None)"

definition countNonZero :: "gray \<Rightarrow> int" where
  "countNonZero m = int (length (filter (\<lambda>v. v \<noteq> 0) (concat m)))"

subsection \<open>The image library\<close>

text \<open>
  The calls whose result is computed inside the library. Each may raise \<^verbatim>\<open>cv2.error\<close>.
  \<open>floodFill\<close> is called with the fixed-range flag and returns the painted image, the mask it
  was given (two pixels wider and taller than the image) and the bounding rectangle;
  \<open>threshold\<close> is called with maximum 255 and the inverted binary Otsu type;
  \<open>groupRectangles\<close> returns the grouped rectangles. \<open>morph_other\<close> stands for an erosion
  or dilation that is outside the case modelled below, \<open>nearest_index\<close> for the source
  coordinate that nearest-neighbour resizing computes for a destination coordinate.
\<close>

record cv2 =
  cvtColor_BGR2GRAY :: "bgr_image \<Rightarrow> gray option"
  cvtColor_GRAY2BGR :: "gray \<Rightarrow> bgr_image option"
  blur :: "gray \<Rightarrow> int \<times> int \<Rightarrow> gray option"
  threshold :: "gray \<Rightarrow> int \<Rightarrow> gray option"
  morph_other :: "bool \<Rightarrow> gray \<Rightarrow> int \<times> int \<Rightarrow> gray option"
  floodFill :: "bgr_image \<Rightarrow> gray \<Rightarrow> int \<times> int \<Rightarrow> int \<times> int \<times> int \<Rightarrow>
                int \<times> int \<times> int \<Rightarrow> int \<times> int \<times> int \<Rightarrow> (bgr_image \<times> gray \<times> rect) option"
  groupRectangles :: "rect list \<Rightarrow> int \<Rightarrow> rat \<Rightarrow> rect list option"
  nearest_index :: "nat \<Rightarrow> nat \<Rightarrow> nat \<Rightarrow> nat"

text \<open>
  Erosion and dilation are called with a Python tuple as the kernel. The binding turns a tuple
  of numbers into a matrix with one row per element and a single column, so the tuple
  \<^verbatim>\<open>(3, 3)\<close> is a kernel of two rows and one column, not a square of side three. When both
  cells are non-zero the kernel is rectangular and only its size counts; its anchor is the cell
  \<open>(0, 1)\<close>, the second row. The result at \<open>(x, y)\<close> is therefore the minimum (erosion) or
  maximum (dilation) of the source at \<open>(x, y - 1)\<close> and \<open>(x, y)\<close>, the row above the first
  being read as 255 for erosion and as 0 for dilation.
\<close>

definition column_kernel :: "(pixel \<Rightarrow> pixel \<Rightarrow> pixel) \<Rightarrow> pixel \<Rightarrow> gray \<Rightarrow> gray" where
  "column_kernel f border src =
     map2 (map2 f) (replicate (shape1 src) border # butlast src) src"

definition erode :: "cv2 \<Rightarrow> gray \<Rightarrow> int \<times> int \<Rightarrow> gray option" where
  "erode cv src kern =
     (if fst kern \<noteq> 0 \<and> snd kern \<noteq> 0 \<and> 0 < shape0 src \<and> 0 < shape1 src
      then Some (column_kernel min 255 src)
      else morph_other cv True src kern)"

definition dilate :: "cv2 \<Rightarrow> gray \<Rightarrow> int \<times> int \<Rightarrow> gray option" where
  "dilate cv src kern =
     (if fst kern \<noteq> 0 \<and> snd kern \<noteq> 0 \<and> 0 < shape0 src \<and> 0 < shape1 src
      then Some (column_kernel max 0 src)
      else morph_other cv False src kern)"

text \<open>
  Nearest-neighbour resizing to \<open>(width, height)\<close>: the library refuses an empty source and a
  size that is not positive; otherwise each destination pixel is the source pixel at the computed
  coordinates, each clipped to the last row and column.
\<close>

definition resize :: "cv2 \<Rightarrow> gray \<Rightarrow> int \<times> int \<Rightarrow> gray option" where
  "resize cv src dsize =
     (let sw = shape1 src; sh = shape0 src; dw = nat (fst dsize); dh = nat (snd dsize)
      in if sw = 0 \<or> sh = 0 \<or> fst dsize \<le> 0 \<or> snd dsize \<le> 0 then None
         else Some (map (\<lambda>y. map (\<lambda>x. src ! min (nearest_index cv dh sh y) (sh - 1)
                                           ! min (nearest_index cv dw sw x) (sw - 1))
                                  [0..<dw])
                        [0..<dh]))"

subsection \<open>Background suppression and compositing (lines 122--134)\<close>

definition background_mask :: "cv2 \<Rightarrow> params \<Rightarrow> bgr_image \<Rightarrow> error + gray" where
  "background_mask cv p img =
     then_do (cv_call (cvtColor_BGR2GRAY cv img)) (\<lambda>gray.
     then_do (lookup p ''no_background_mask_blur_kernel_x'') (\<lambda>blur_x.
     then_do (lookup p ''no_background_mask_blur_kernel_y'') (\<lambda>blur_y.
     then_do (cv_call (blur cv gray (blur_x, blur_y))) (\<lambda>gray_blurred.
     then_do (lookup p ''no_background_mask_threshold'') (\<lambda>thresh.
     then_do (cv_call (threshold cv gray_blurred thresh)) (\<lambda>no_background_mask.
     then_do (lookup p ''no_background_mask_erode_kernel_x'') (\<lambda>erode_x.
     then_do (lookup p ''no_background_mask_erode_kernel_y'') (\<lambda>erode_y.
     cv_call (erode cv no_background_mask (erode_x, erode_y))))))))))"

definition remove_background :: "cv2 \<Rightarrow> bgr_image \<Rightarrow> gray \<Rightarrow> error + bgr_image" where
  "remove_background cv img no_background_mask =
     then_do (cv_call (cvtColor_GRAY2BGR cv no_background_mask)) (\<lambda>mask_bgr.
     cv_call (bitwise_and_bgr img mask_bgr))"

subsection \<open>One seed of the sweep (lines 152--200)\<close>

text \<open>Line 168: the mask written by the flood fill, without its last two rows and columns,
  times 255 in unsigned bytes, and the background mask.\<close>

definition character_mask_of :: "gray \<Rightarrow> gray \<Rightarrow> gray option" where
  "character_mask_of floodfill_mask no_background_mask =
     bitwise_and (map (map (\<lambda>v. v * 255)) (slice2 floodfill_mask 0 (- 2) 0 (- 2)))
                 no_background_mask"

text \<open>
  The intersection as the specification words it: the fill restricted to the image, which is
  the inside of the mask (the library documents that image pixel \<open>(x, y)\<close> is mask pixel
  \<open>(x + 1, y + 1)\<close>), each filled pixel at 255, and the background mask.
\<close>

definition character_mask_spec :: "gray \<Rightarrow> gray \<Rightarrow> gray option" where
  "character_mask_spec floodfill_mask no_background_mask =
     bitwise_and (map (map (\<lambda>v. v * 255)) (slice2 floodfill_mask 1 (- 1) 1 (- 1)))
                 no_background_mask"

text \<open>Line 184: \<^verbatim>\<open>pixels / (rect_w * rect_h) * 100\<close>, a true division and a float product.\<close>

definition density :: "int \<Rightarrow> int \<Rightarrow> int \<Rightarrow> error + rat" where
  "density pixels rect_w rect_h =
     (if rect_w * rect_h = 0 then Inl ZeroDivisionError
      else Inr (to_double (to_double (of_int pixels / of_int (rect_w * rect_h)) * 100)))"

text \<open>Lines 171--186: the result says whether the candidate reaches the merge of line 199.\<close>

definition filter_candidate :: "params \<Rightarrow> gray \<Rightarrow> rect \<Rightarrow> error + bool" where
  "filter_candidate p character_mask rect =
     (case rect of (rect_x, rect_y, rect_w, rect_h) \<Rightarrow>
        then_do (lookup p ''min_character_width'') (\<lambda>min_w.
        if \<not> min_w \<le> rect_w then Inr False else
        then_do (lookup p ''max_character_width'') (\<lambda>max_w.
        if \<not> rect_w \<le> max_w then Inr False else
        then_do (lookup p ''min_character_height'') (\<lambda>min_h.
        if \<not> min_h \<le> rect_h then Inr False else
        then_do (lookup p ''max_character_height'') (\<lambda>max_h.
        if \<not> rect_h \<le> max_h then Inr False else
        (let pixels = countNonZero
               (slice2 character_mask rect_y (rect_y + rect_h) rect_x (rect_x + rect_w))
         in if pixels = 0 then Inr False else
            then_do (density pixels rect_w rect_h) (\<lambda>d.
            then_do (lookup p ''min_pixel_density'') (\<lambda>min_d.
            if d < of_int min_d then Inr False else Inr True))))))))"

definition scan_step ::
  "cv2 \<Rightarrow> params \<Rightarrow> bool \<Rightarrow> bgr_image \<Rightarrow> gray \<Rightarrow> nat \<Rightarrow> nat \<Rightarrow> int \<times> int \<times> int \<Rightarrow> nat \<Rightarrow>
   rect list \<times> gray \<Rightarrow> error + rect list \<times> gray" where
  "scan_step cv p debug image_masked no_background_mask image_w image_h color_threshold x st =
     then_do (index2 no_background_mask (image_h div 2) x) (\<lambda>seed.
     if seed = 0 then Inr st else
     then_do (cv_call (floodFill cv image_masked (zeros (image_h + 2) (image_w + 2))
                         (int x, int (image_h div 2)) (255, 255, 255)
                         color_threshold color_threshold)) (\<lambda>filled.
     (case filled of (debug_result, floodfill_mask, rect) \<Rightarrow>
     then_do (cv_call (character_mask_of floodfill_mask no_background_mask)) (\<lambda>character_mask.
     then_do (filter_candidate p character_mask rect) (\<lambda>accepted.
     if \<not> accepted then Inr st else
     if debug \<and> image_w div 20 = 0 then Inl ZeroDivisionError else
     then_do (cv_call (bitwise_or character_mask (snd st))) (\<lambda>characters_mask.
     Inr (fst st @ [rect], characters_mask)))))))"

text \<open>The loop of line 151 over \<^verbatim>\<open>range(0, image_w)\<close>.\<close>

fun scan ::
  "cv2 \<Rightarrow> params \<Rightarrow> bool \<Rightarrow> bgr_image \<Rightarrow> gray \<Rightarrow> nat \<Rightarrow> nat \<Rightarrow> int \<times> int \<times> int \<Rightarrow> nat list \<Rightarrow>
   rect list \<times> gray \<Rightarrow> error + rect list \<times> gray" where
  "scan cv p debug image_masked no_background_mask image_w image_h color_threshold [] st = Inr st"
| "scan cv p debug image_masked no_background_mask image_w image_h color_threshold (x # xs) st =
     then_do (scan_step cv p debug image_masked no_background_mask image_w image_h
                color_threshold x st)
       (scan cv p debug image_masked no_background_mask image_w image_h color_threshold xs)"

subsection \<open>Grouping, refining and cutting (lines 202--239)\<close>

text \<open>Line 236: the rectangle cut out of the mask.\<close>

definition crop :: "gray \<Rightarrow> rect \<Rightarrow> gray" where
  "crop characters_mask rect =
     (case rect of (x, y, w, h) \<Rightarrow> slice2 characters_mask y (y + h) x (x + w))"

definition cut_character :: "cv2 \<Rightarrow> gray \<Rightarrow> int option \<Rightarrow> int option \<Rightarrow> rect \<Rightarrow> error + gray" where
  "cut_character cv characters_mask output_width output_height rect =
     (let character = crop characters_mask rect
      in case output_width of
           None \<Rightarrow> Inr character
         | Some ow \<Rightarrow>
             (case output_height of
                None \<Rightarrow> Inr character
              | Some oh \<Rightarrow> cv_call (resize cv character (ow, oh))))"

fun cut_characters ::
  "cv2 \<Rightarrow> gray \<Rightarrow> int option \<Rightarrow> int option \<Rightarrow> rect list \<Rightarrow> error + gray list" where
  "cut_characters cv characters_mask output_width output_height [] = Inr []"
| "cut_characters cv characters_mask output_width output_height (rect # rects_grouped) =
     then_do (cut_character cv characters_mask output_width output_height rect) (\<lambda>character.
     then_do (cut_characters cv characters_mask output_width output_height rects_grouped)
       (\<lambda>characters. Inr (character # characters)))"

text \<open>Lines 212--213, the mask refiner.\<close>

definition fix_empty_pixels :: "cv2 \<Rightarrow> gray \<Rightarrow> gray option" where
  "fix_empty_pixels cv characters_mask =
     (case dilate cv characters_mask (3, 3) of
        None \<Rightarrow> None
      | Some dilated \<Rightarrow> erode cv dilated (3, 3))"

definition group_and_cut ::
  "cv2 \<Rightarrow> params \<Rightarrow> int option \<Rightarrow> int option \<Rightarrow> rect list \<times> gray \<Rightarrow> error + gray list" where
  "group_and_cut cv p output_width output_height st =
     (if fst st = [] then Inr []
      else
        then_do (lookup p ''rects_group_threshold'') (\<lambda>group_threshold.
        then_do (lookup p ''rects_group_eps'') (\<lambda>eps.
        then_do (cv_call (groupRectangles cv (fst st) group_threshold
                            (to_double (to_double (of_int eps) / 100)))) (\<lambda>rects_grouped.
        then_do (cv_call (fix_empty_pixels cv (snd st))) (\<lambda>characters_mask.
        cut_characters cv characters_mask output_width output_height rects_grouped)))))"

subsection \<open>The entry point\<close>

definition segment ::
  "cv2 \<Rightarrow> bgr_image \<Rightarrow> int option \<Rightarrow> int option \<Rightarrow> bool \<Rightarrow> params \<Rightarrow> error + gray list" where
  "segment cv img output_width output_height debug p =
     (let image_w = shape1 img; image_h = shape0 img
      in then_do (background_mask cv p img) (\<lambda>no_background_mask.
         then_do (remove_background cv img no_background_mask) (\<lambda>image_masked.
         then_do (lookup p ''floodfill_threshold'') (\<lambda>t.
         then_do (scan cv p debug image_masked no_background_mask image_w image_h (t, t, t)
                    [0..<image_w] ([], zeros image_h image_w))
           (group_and_cut cv p output_width output_height)))))"

definition width_message :: string where
  "width_message = ''output_width must be less or equal to the image width''"

definition height_message :: string where
  "height_message = ''output_height must be less or equal to the image height''"

definition exceeds :: "int option \<Rightarrow> nat \<Rightarrow> bool" where
  "exceeds requested available = (case requested of None \<Rightarrow> False | Some n \<Rightarrow> int available < n)"

text \<open>Lines 79--84: the dictionary that the rest of the function reads.\<close>

definition resolve :: "params option \<Rightarrow> params" where
  "resolve params_arg =
     (case params_arg of
        None \<Rightarrow> map_of PARAMS_DEFAULT
      | Some caller \<Rightarrow> fix_params PARAMS_DEFAULT caller)"

text \<open>
  The first component of the result is the caller's dictionary after the call (\<open>None\<close> when
  the caller passed none), the second is the returned list or the exception raised.
\<close>

definition extract_characters ::
  "cv2 \<Rightarrow> bgr_image \<Rightarrow> int option \<Rightarrow> int option \<Rightarrow> bool \<Rightarrow> params option \<Rightarrow>
   params option \<times> (error + gray list)" where
  "extract_characters cv img output_width output_height debug params_arg =
     (map_option (fix_params PARAMS_DEFAULT) params_arg,
      if exceeds output_width (shape1 img) then Inl (Exception width_message)
      else if exceeds output_height (shape0 img) then Inl (Exception height_message)
      else segment cv img output_width output_height debug (resolve params_arg))"

subsection \<open>Concrete inputs\<close>

text \<open>
  The inputs on which the theorems are exercised. \<open>black_pixel_cv2\<close> holds what the library
  returns for the image of one black pixel: its grey value is 0, the blur leaves it, Otsu's
  threshold of a uniform image is 0 and the inverted binary threshold makes the pixel foreground,
  the flood fill from the only seed fills the pixel (the mask is all ones, its border included,
  and the rectangle is the image), and grouping with a threshold of zero or less returns its
  input while a single rectangle does not reach a positive threshold.
\<close>

definition black_pixel_cv2 :: cv2 where
  "black_pixel_cv2 =
     \<lparr>cvtColor_BGR2GRAY = (\<lambda>img. Some [[0]]),
      cvtColor_GRAY2BGR = (\<lambda>m. Some (map (map (\<lambda>v. (v, v, v))) m)),
      blur = (\<lambda>src ksize. Some src),
      threshold = (\<lambda>src thresh. Some [[255]]),
      morph_other = (\<lambda>is_erosion src kern. None),
      floodFill = (\<lambda>img mask_temp seed new_val lo_diff up_diff.
         Some ([[(255, 255, 255)]], [[1, 1, 1], [1, 1, 1], [1, 1, 1]], (0, 0, 1, 1))),
      groupRectangles = (\<lambda>rects group_threshold eps.
         Some (if group_threshold \<le> 0 then rects else [])),
      nearest_index = (\<lambda>dst src i. i * src div dst)\<rparr>"

definition black_pixel :: bgr_image where
  "black_pixel = [[(0, 0, 0)]]"

definition small_glyphs :: params where
  "small_glyphs = [''min_character_width'' \<mapsto> 1, ''min_character_height'' \<mapsto> 1]"

definition single_glyph :: params where
  "single_glyph = [''min_character_width'' \<mapsto> 1, ''min_character_height'' \<mapsto> 1,
                   ''rects_group_threshold'' \<mapsto> 0]"



definition strip50 :: bgr_image where
  "strip50 = [replicate 50 (0, 0, 0)]"

text \<open>
  \<open>two_inks_fill\<close> and \<open>two_inks_mask\<close> are the flood-fill mask and the background mask
  of a one-row image of three black, three blue and two white pixels, seeded at the first pixel:
  both inks are foreground, the fill covers the three black pixels only. \<open>stroke\<close> is an
  aggregate mask of one column with one pixel set, \<open>checker\<close> one of two rows and columns.
\<close>

definition two_inks_fill :: gray where
  "two_inks_fill = [[1, 1, 1, 1, 1, 1, 1, 1, 1, 1],
                    [1, 1, 1, 1, 0, 0, 0, 0, 0, 1],
                    [1, 1, 1, 1, 1, 1, 1, 1, 1, 1]]"

definition two_inks_mask :: gray where
  "two_inks_mask = [[255, 255, 255, 255, 255, 255, 0, 0]]"

definition stroke :: gray where
  "stroke = [[0], [255], [0]]"

definition checker :: gray where
  "checker = [[0, 255], [255, 0]]"

text \<open>
  \<open>two_glyphs\<close> is an image of three rows and columns: a white column, then a grey glyph
  (value 100) and a black glyph, each two pixels high, above a white row. \<open>two_glyphs_cv2\<close>
  holds what the library returns for it with a blur kernel of one pixel: the grey values are
  those of the pixels, the blur leaves them, Otsu's threshold is 100 and the inverted binary
  threshold makes both glyphs foreground (\<open>two_glyphs_mask\<close>). In the masked image
  (\<open>two_glyphs_masked\<close>) the white pixels are black. The fill from the seed \<open>(1, 1)\<close>
  covers the two grey pixels (\<open>gray_fill\<close>, rectangle \<open>(1, 0, 1, 2)\<close>); the fill from
  \<open>(2, 1)\<close> covers the black glyph and, through the bottom row, every blackened pixel
  (\<open>black_fill\<close>, rectangle \<open>(0, 0, 3, 3)\<close>). Grouping with a threshold of zero or less
  returns its input. \<open>two_glyphs_refined\<close> is the aggregate mask after lines 212 and 213.
\<close>

definition two_glyphs :: bgr_image where
  "two_glyphs = [[(255, 255, 255), (100, 100, 100), (0, 0, 0)],
                 [(255, 255, 255), (100, 100, 100), (0, 0, 0)],
                 [(255, 255, 255), (255, 255, 255), (255, 255, 255)]]"

definition two_glyphs_masked :: bgr_image where
  "two_glyphs_masked = [[(0, 0, 0), (100, 100, 100), (0, 0, 0)],
                        [(0, 0, 0), (100, 100, 100), (0, 0, 0)],
                        [(0, 0, 0), (0, 0, 0), (0, 0, 0)]]"

definition two_glyphs_mask :: gray where
  "two_glyphs_mask = [[0, 255, 255], [0, 255, 255], [0, 0, 0]]"

definition gray_fill :: gray where
  "gray_fill = [[1, 1, 1, 1, 1],
                [1, 0, 1, 0, 1],
                [1, 0, 1, 0, 1],
                [1, 0, 0, 0, 1],
                [1, 1, 1, 1, 1]]"

definition black_fill :: gray where
  "black_fill = [[1, 1, 1, 1, 1],
                 [1, 1, 0, 1, 1],
                 [1, 1, 0, 1, 1],
                 [1, 1, 1, 1, 1],
                 [1, 1, 1, 1, 1]]"

definition two_glyphs_cv2 :: cv2 where
  "two_glyphs_cv2 =
     \<lparr>cvtColor_BGR2GRAY = (\<lambda>img. Some [[255, 100, 0], [255, 100, 0], [255, 255, 255]]),
      cvtColor_GRAY2BGR = (\<lambda>m. Some (map (map (\<lambda>v. (v, v, v))) m)),
      blur = (\<lambda>src ksize. Some src),
      threshold = (\<lambda>src thresh. Some two_glyphs_mask),
      morph_other = (\<lambda>is_erosion src kern. None),
      floodFill = (\<lambda>img mask_temp seed new_val lo_diff up_diff.
         if seed = (1, 1)
         then Some ([[(0, 0, 0), (255, 255, 255), (0, 0, 0)],
                     [(0, 0, 0), (255, 255, 255), (0, 0, 0)],
                     [(0, 0, 0), (0, 0, 0), (0, 0, 0)]], gray_fill, (1, 0, 1, 2))
         else Some ([[(255, 255, 255), (100, 100, 100), (255, 255, 255)],
                     [(255, 255, 255), (100, 100, 100), (255, 255, 255)],
                     [(255, 255, 255), (255, 255, 255), (255, 255, 255)]],
                    black_fill, (0, 0, 3, 3))),
      groupRectangles = (\<lambda>rects group_threshold eps.
         Some (if group_threshold \<le> 0 then rects else [])),
      nearest_index = (\<lambda>dst src i. i * src div dst)\<rparr>"

definition two_glyphs_params :: params where
  "two_glyphs_params =
     [''no_background_mask_blur_kernel_x'' \<mapsto> 1, ''no_background_mask_blur_kernel_y'' \<mapsto> 1,
      ''min_character_width'' \<mapsto> 1, ''min_character_height'' \<mapsto> 1,
      ''rects_group_threshold'' \<mapsto> 0]"

definition two_glyphs_refined :: gray where
  "two_glyphs_refined = [[0, 255, 255], [0, 255, 255], [0, 255, 255]]"

text \<open>An error other than the \<^verbatim>\<open>Exception\<close> of lines 91 and 93.\<close>

definition other_error :: "error + 'a \<Rightarrow> bool" where
  "other_error r = (\<forall>msg. r \<noteq> Inl (Exception msg))"

section \<open>Auxiliary facts\<close>

lemma then_do_simps [simp]:
  "then_do (Inl e) f = Inl e" "then_do (Inr v) f = f v"
  by (simp_all add: then_do_def)

lemma cv_call_simps [simp]:
  "cv_call None = Inl cv2_error" "cv_call (Some v) = Inr v"
  by (simp_all add: cv_call_def)

lemma then_do_Inr:
  "then_do r f = Inr b \<longleftrightarrow> (\<exists>a. r = Inr a \<and> f a = Inr b)"
  by (cases r) simp_all

lemma cv_call_Inr: "cv_call r = Inr v \<longleftrightarrow> r = Some v"
  by (cases r) simp_all

subsection \<open>The parameter dictionary\<close>

lemma fix_params_keeps: "p k = Some v \<Longrightarrow> fix_params items p k = Some v"
proof (induction items arbitrary: p)
  case Nil
  then show ?case by simp
next
  case (Cons item items)
  obtain key val where item: "item = (key, val)" by (cases item)
  show ?case
  proof (cases "p key = None")
    case True
    with Cons.prems have "(p(key \<mapsto> val)) k = Some v" by auto
    then show ?thesis using True item Cons.IH by simp
  next
    case False
    then show ?thesis using item Cons by auto
  qed
qed

lemma fix_params_absent:
  "p k = None \<Longrightarrow> fix_params items p k = map_of items k"
  by (induction items p rule: fix_params.induct) (auto simp: fix_params_keeps)

lemma fix_params_eq:
  "fix_params items p k = (case p k of Some v \<Rightarrow> Some v | None \<Rightarrow> map_of items k)"
  by (cases "p k") (simp_all add: fix_params_keeps fix_params_absent)

lemma default_keys:
  "map fst PARAMS_DEFAULT =
     [''no_background_mask_blur_kernel_x'', ''no_background_mask_blur_kernel_y'',
      ''no_background_mask_threshold'', ''no_background_mask_erode_kernel_x'',
      ''no_background_mask_erode_kernel_y'', ''floodfill_threshold'', ''group_threshold'',
      ''min_character_width'', ''max_character_width'', ''min_character_height'',
      ''max_character_height'', ''min_pixel_density'', ''rects_group_threshold'',
      ''rects_group_eps'']"
  by (simp add: PARAMS_DEFAULT_def)

lemma default_distinct: "distinct (map fst PARAMS_DEFAULT)"
  unfolding default_keys by simp

lemma resolve_eq:
  "resolve pa k = (case pa of None \<Rightarrow> map_of PARAMS_DEFAULT k
                   | Some p \<Rightarrow> (case p k of Some v \<Rightarrow> Some v | None \<Rightarrow> map_of PARAMS_DEFAULT k))"
  by (cases pa) (simp_all add: resolve_def fix_params_eq)

subsection \<open>Errors of the pipeline\<close>

lemma other_then_do:
  "other_error r \<Longrightarrow> (\<And>v. other_error (f v)) \<Longrightarrow> other_error (then_do r f)"
  by (cases r) (auto simp: other_error_def)

lemma other_basic [simp]:
  "other_error (cv_call c)" "other_error (lookup p k)" "other_error (index2 m y x)"
  "other_error (density a b d)" "other_error (Inr v)" "other_error (Inl ZeroDivisionError)"
  by (auto simp: other_error_def cv_call_def lookup_def index2_def density_def
      split: option.splits)

lemma other_if: "other_error a \<Longrightarrow> other_error b \<Longrightarrow> other_error (if c then a else b)"
  by simp

lemma other_background_mask: "other_error (background_mask cv p img)"
  unfolding background_mask_def by (intro other_then_do other_basic)

lemma other_remove_background: "other_error (remove_background cv img m)"
  unfolding remove_background_def by (intro other_then_do other_basic)

lemma other_filter: "other_error (filter_candidate p m r)"
  unfolding filter_candidate_def Let_def
  by (cases r) (auto intro!: other_then_do other_if)

lemma other_scan_step: "other_error (scan_step cv p debug im nbm w h ct x st)"
  unfolding scan_step_def
  by (auto intro!: other_then_do other_if other_filter split: prod.splits)

lemma other_scan: "other_error (scan cv p debug im nbm w h ct xs st)"
  by (induction xs arbitrary: st) (auto intro!: other_then_do other_scan_step)

lemma other_cut_character: "other_error (cut_character cv m ow oh r)"
  unfolding cut_character_def Let_def by (auto split: prod.splits option.splits)

lemma other_cut_characters: "other_error (cut_characters cv m ow oh rs)"
  by (induction rs) (auto intro!: other_then_do other_cut_character)

lemma other_group_and_cut: "other_error (group_and_cut cv p ow oh st)"
  unfolding group_and_cut_def
  by (auto intro!: other_then_do other_cut_characters)

lemma other_segment: "other_error (segment cv img ow oh debug p)"
  unfolding segment_def Let_def
  by (intro other_then_do other_basic other_background_mask other_remove_background
      other_scan other_group_and_cut)

subsection \<open>Slices\<close>

lemma py_slice_empty [simp]: "py_slice lo lo xs = []"
  by (simp add: py_slice_def Let_def)

lemma set_py_slice: "set (py_slice lo hi xs) \<subseteq> set xs"
  unfolding py_slice_def Let_def
  by (meson set_take_subset set_drop_subset subset_trans)

lemma length_py_slice:
  "length xs = length ys \<Longrightarrow> length (py_slice lo hi xs) = length (py_slice lo hi ys)"
  by (simp add: py_slice_def Let_def)

lemma count_empty_rect:
  "w * h = 0 \<Longrightarrow> countNonZero (slice2 m y (y + h) x (x + w)) = 0"
  by (auto simp: countNonZero_def slice2_def)

subsection \<open>The candidate filter\<close>

lemma lookup_Some: "p k = Some v \<Longrightarrow> lookup p k = Inr v"
  by (simp add: lookup_def)

lemma filter_candidate_eq:
  assumes "p ''min_character_width'' = Some min_w"
    and "p ''max_character_width'' = Some max_w"
    and "p ''min_character_height'' = Some min_h"
    and "p ''max_character_height'' = Some max_h"
    and "p ''min_pixel_density'' = Some min_d"
  shows "filter_candidate p character_mask (rect_x, rect_y, rect_w, rect_h)
       = Inr (min_w \<le> rect_w \<and> rect_w \<le> max_w \<and> min_h \<le> rect_h \<and> rect_h \<le> max_h
              \<and> countNonZero (crop character_mask (rect_x, rect_y, rect_w, rect_h)) \<noteq> 0
              \<and> of_int min_d \<le>
                  to_double (to_double
                    (of_int (countNonZero (crop character_mask (rect_x, rect_y, rect_w, rect_h)))
                       / of_int (rect_w * rect_h)) * 100))"
proof (cases "rect_w * rect_h = 0")
  case True
  then have "countNonZero (slice2 character_mask rect_y (rect_y + rect_h) rect_x (rect_x + rect_w)) = 0"
    by (rule count_empty_rect)
  then show ?thesis
    using assms by (simp add: filter_candidate_def lookup_Some crop_def Let_def)
next
  case False
  then show ?thesis
    using assms
    by (simp add: filter_candidate_def lookup_Some crop_def Let_def density_def not_less)
qed

subsection \<open>The image of one black pixel\<close>

lemma resolve_at:
  "resolve None k = map_of PARAMS_DEFAULT k"
  "resolve (Some p) k = (case p k of Some v \<Rightarrow> Some v | None \<Rightarrow> map_of PARAMS_DEFAULT k)"
  by (simp_all add: resolve_eq)

lemma default_values:
  "resolve None ''no_background_mask_blur_kernel_x'' = Some 3"
  "resolve None ''no_background_mask_blur_kernel_y'' = Some 3"
  "resolve None ''no_background_mask_threshold'' = Some 180"
  "resolve None ''no_background_mask_erode_kernel_x'' = Some 3"
  "resolve None ''no_background_mask_erode_kernel_y'' = Some 2"
  "resolve None ''floodfill_threshold'' = Some 39"
  "resolve None ''min_character_width'' = Some 34"
  "resolve None ''max_character_width'' = Some 110"
  "resolve None ''min_character_height'' = Some 34"
  "resolve None ''max_character_height'' = Some 110"
  "resolve None ''min_pixel_density'' = Some 12"
  by (simp_all add: resolve_at PARAMS_DEFAULT_def)

lemma small_values:
  "resolve (Some small_glyphs) ''no_background_mask_blur_kernel_x'' = Some 3"
  "resolve (Some small_glyphs) ''no_background_mask_blur_kernel_y'' = Some 3"
  "resolve (Some small_glyphs) ''no_background_mask_threshold'' = Some 180"
  "resolve (Some small_glyphs) ''no_background_mask_erode_kernel_x'' = Some 3"
  "resolve (Some small_glyphs) ''no_background_mask_erode_kernel_y'' = Some 2"
  "resolve (Some small_glyphs) ''floodfill_threshold'' = Some 39"
  "resolve (Some small_glyphs) ''min_character_width'' = Some 1"
  "resolve (Some small_glyphs) ''max_character_width'' = Some 110"
  "resolve (Some small_glyphs) ''min_character_height'' = Some 1"
  "resolve (Some small_glyphs) ''max_character_height'' = Some 110"
  "resolve (Some small_glyphs) ''min_pixel_density'' = Some 12"
  by (simp_all add: resolve_at PARAMS_DEFAULT_def small_glyphs_def)


lemma black_pixel_shape: "shape1 black_pixel = 1" "shape0 black_pixel = 1"
  by (simp_all add: shape1_def shape0_def black_pixel_def)

lemma black_pixel_background_mask:
  assumes "p ''no_background_mask_blur_kernel_x'' = Some bx"
    and "p ''no_background_mask_blur_kernel_y'' = Some by"
    and "p ''no_background_mask_threshold'' = Some t"
    and "p ''no_background_mask_erode_kernel_x'' = Some 3"
    and "p ''no_background_mask_erode_kernel_y'' = Some 2"
  shows "background_mask black_pixel_cv2 p black_pixel = Inr [[255]]"
  using assms
  by (simp add: background_mask_def lookup_Some black_pixel_cv2_def erode_def shape0_def
      shape1_def column_kernel_def)

lemma black_pixel_remove_background:
  "remove_background black_pixel_cv2 black_pixel [[255]] = Inr black_pixel"
  by (simp add: remove_background_def black_pixel_cv2_def bitwise_and_bgr_def same_shape_def
      black_pixel_def and_bgr_def)

lemma black_pixel_character_mask:
  "character_mask_of [[1, 1, 1], [1, 1, 1], [1, 1, 1]] [[255]] = Some [[255]]"
  by (simp add: character_mask_of_def slice2_def py_slice_def bitwise_and_def same_shape_def)

lemma black_pixel_flood:
  "floodFill black_pixel_cv2 img mask_temp seed new_val lo up
     = Some ([[(255, 255, 255)]], [[1, 1, 1], [1, 1, 1], [1, 1, 1]], (0, 0, 1, 1))"
  by (simp add: black_pixel_cv2_def)

lemma black_pixel_seed: "index2 [[255 :: pixel]] 0 0 = Inr 255"
  by (simp add: index2_def)

lemma black_pixel_count: "countNonZero (crop [[255]] (0, 0, 1, 1)) = 1"
  by (simp add: countNonZero_def crop_def slice2_def py_slice_def)

lemma full_density: "to_double (to_double (of_int 1 / of_int (1 * 1)) * 100) = 100"
  by code_simp



lemma black_pixel_step_debug:
  "scan_step black_pixel_cv2 (resolve (Some small_glyphs)) True black_pixel [[255]] 1 1
     (39, 39, 39) 0 ([], zeros 1 1) = Inl ZeroDivisionError"
  using full_density
  by (simp add: scan_step_def black_pixel_seed black_pixel_flood black_pixel_character_mask
      filter_candidate_eq [OF small_values(7-11)] black_pixel_count del: One_nat_def)

lemma black_pixel_step_default:
  "scan_step black_pixel_cv2 (resolve None) debug black_pixel [[255]] 1 1
     (39, 39, 39) 0 ([], zeros 1 1) = Inr ([], zeros 1 1)"
  by (simp add: scan_step_def black_pixel_seed black_pixel_flood black_pixel_character_mask
      filter_candidate_eq [OF default_values(7-11)] del: One_nat_def)

lemma upt_one: "[0..<1] = [0 :: nat]"
  by simp

subsection \<open>Dictionaries that agree on the keys that are read\<close>

lemma fix_params_agree:
  "\<forall>k. k \<noteq> g \<longrightarrow> p1 k = p2 k \<Longrightarrow> k \<noteq> g \<Longrightarrow>
   fix_params items p1 k = fix_params items p2 k"
  by (simp add: fix_params_eq)

lemma lookup_agree:
  "\<forall>k. k \<noteq> g \<longrightarrow> p1 k = p2 k \<Longrightarrow> k \<noteq> g \<Longrightarrow> lookup p1 k = lookup p2 k"
  by (simp add: lookup_def)

lemma used_keys_agree:
  assumes "\<forall>k. k \<noteq> ''group_threshold'' \<longrightarrow> p1 k = p2 k"
  shows "lookup p1 ''no_background_mask_blur_kernel_x'' = lookup p2 ''no_background_mask_blur_kernel_x''"
    and "lookup p1 ''no_background_mask_blur_kernel_y'' = lookup p2 ''no_background_mask_blur_kernel_y''"
    and "lookup p1 ''no_background_mask_threshold'' = lookup p2 ''no_background_mask_threshold''"
    and "lookup p1 ''no_background_mask_erode_kernel_x'' = lookup p2 ''no_background_mask_erode_kernel_x''"
    and "lookup p1 ''no_background_mask_erode_kernel_y'' = lookup p2 ''no_background_mask_erode_kernel_y''"
    and "lookup p1 ''floodfill_threshold'' = lookup p2 ''floodfill_threshold''"
    and "lookup p1 ''min_character_width'' = lookup p2 ''min_character_width''"
    and "lookup p1 ''max_character_width'' = lookup p2 ''max_character_width''"
    and "lookup p1 ''min_character_height'' = lookup p2 ''min_character_height''"
    and "lookup p1 ''max_character_height'' = lookup p2 ''max_character_height''"
    and "lookup p1 ''min_pixel_density'' = lookup p2 ''min_pixel_density''"
    and "lookup p1 ''rects_group_threshold'' = lookup p2 ''rects_group_threshold''"
    and "lookup p1 ''rects_group_eps'' = lookup p2 ''rects_group_eps''"
  using assms by (simp_all add: lookup_def)

lemma background_mask_agree:
  assumes "\<forall>k. k \<noteq> ''group_threshold'' \<longrightarrow> p1 k = p2 k"
  shows "background_mask cv p1 img = background_mask cv p2 img"
  unfolding background_mask_def by (simp only: used_keys_agree [OF assms])

lemma filter_candidate_agree:
  assumes "\<forall>k. k \<noteq> ''group_threshold'' \<longrightarrow> p1 k = p2 k"
  shows "filter_candidate p1 m r = filter_candidate p2 m r"
  unfolding filter_candidate_def by (simp only: used_keys_agree [OF assms])

lemma scan_step_agree:
  assumes "\<forall>k. k \<noteq> ''group_threshold'' \<longrightarrow> p1 k = p2 k"
  shows "scan_step cv p1 debug im nbm w h ct x st = scan_step cv p2 debug im nbm w h ct x st"
  unfolding scan_step_def by (simp only: filter_candidate_agree [OF assms])

lemma scan_agree:
  assumes "\<forall>k. k \<noteq> ''group_threshold'' \<longrightarrow> p1 k = p2 k"
  shows "scan cv p1 debug im nbm w h ct xs st = scan cv p2 debug im nbm w h ct xs st"
proof (induction xs arbitrary: st)
  case Nil
  show ?case by simp
next
  case (Cons x xs)
  have "scan cv p1 debug im nbm w h ct xs = scan cv p2 debug im nbm w h ct xs"
    using Cons.IH by (rule ext)
  then show ?case by (simp add: scan_step_agree [OF assms])
qed

lemma group_and_cut_agree:
  assumes "\<forall>k. k \<noteq> ''group_threshold'' \<longrightarrow> p1 k = p2 k"
  shows "group_and_cut cv p1 ow oh st = group_and_cut cv p2 ow oh st"
  unfolding group_and_cut_def by (simp only: used_keys_agree [OF assms])

lemma segment_agree:
  assumes "\<forall>k. k \<noteq> ''group_threshold'' \<longrightarrow> p1 k = p2 k"
  shows "segment cv img ow oh debug p1 = segment cv img ow oh debug p2"
proof -
  have g: "group_and_cut cv p1 ow oh = group_and_cut cv p2 ow oh"
    by (rule ext) (rule group_and_cut_agree [OF assms])
  have s: "scan cv p1 debug = scan cv p2 debug"
    by (intro ext) (rule scan_agree [OF assms])
  show ?thesis
    unfolding segment_def
    by (simp only: background_mask_agree [OF assms] used_keys_agree [OF assms] g s)
qed

subsection \<open>One step of the sweep under lower thresholds\<close>

lemma filter_candidate_loosened:
  assumes same: "\<forall>k. k \<notin> {''min_character_width'', ''min_character_height'',
                         ''min_pixel_density''} \<longrightarrow> p_small k = p_big k"
    and w: "p_small ''min_character_width'' = Some w1" "p_big ''min_character_width'' = Some w2"
      "w1 \<le> w2"
    and h: "p_small ''min_character_height'' = Some h1" "p_big ''min_character_height'' = Some h2"
      "h1 \<le> h2"
    and d: "p_small ''min_pixel_density'' = Some d1" "p_big ''min_pixel_density'' = Some d2"
      "d1 \<le> d2"
    and acc: "filter_candidate p_big m r = Inr True"
  shows "filter_candidate p_small m r = Inr True"
proof -
  obtain rx ry rw rh where r: "r = (rx, ry, rw, rh)" by (cases r)
  have mw: "p_small ''max_character_width'' = p_big ''max_character_width''"
    and mh: "p_small ''max_character_height'' = p_big ''max_character_height''"
    using same by simp_all
  from acc obtain max_w where xw: "p_big ''max_character_width'' = Some max_w"
    unfolding r filter_candidate_def
    by (cases "p_big ''max_character_width''")
       (auto simp: lookup_def w split: if_splits)
  from acc obtain max_h where xh: "p_big ''max_character_height'' = Some max_h"
    unfolding r filter_candidate_def
    by (cases "p_big ''max_character_height''")
       (auto simp: lookup_def w h xw split: if_splits)
  have "(of_int d1 :: rat) \<le> of_int d2" using d(3) by simp
  then show ?thesis
    using acc w(3) h(3)
    unfolding r
    by (auto simp: filter_candidate_eq [OF w(2) xw h(2) xh d(2)]
        filter_candidate_eq [OF w(1) xw [folded mw] h(1) xh [folded mh] d(1)])
qed

lemma scan_step_outcome:
  assumes "scan_step cv p debug im nbm w h ct x (rects, cm) = Inr (rects', cm')"
  shows "rects' = rects
       \<or> (\<exists>dr fm rect character_mask seed.
             index2 nbm (h div 2) x = Inr seed \<and> seed \<noteq> 0
             \<and> floodFill cv im (zeros (h + 2) (w + 2)) (int x, int (h div 2)) (255, 255, 255) ct ct
                 = Some (dr, fm, rect)
             \<and> character_mask_of fm nbm = Some character_mask
             \<and> filter_candidate p character_mask rect = Inr True
             \<and> rects' = rects @ [rect])"
proof (cases "index2 nbm (h div 2) x")
  case (Inl e)
  with assms show ?thesis by (simp add: scan_step_def)
next
  case seed: (Inr seed)
  show ?thesis
  proof (cases "seed = 0")
    case True
    with assms seed show ?thesis by (simp add: scan_step_def)
  next
    case nz: False
    show ?thesis
    proof (cases "floodFill cv im (zeros (h + 2) (w + 2)) (int x, int (h div 2))
                    (255, 255, 255) ct ct")
      case None
      with assms seed nz show ?thesis by (simp add: scan_step_def)
    next
      case (Some filled)
      obtain dr fm rect where filled: "filled = (dr, fm, rect)" by (cases filled)
      show ?thesis
      proof (cases "character_mask_of fm nbm")
        case None
        with assms seed nz Some filled show ?thesis by (simp add: scan_step_def)
      next
        case cmask: (Some character_mask)
        show ?thesis
        proof (cases "filter_candidate p character_mask rect")
          case (Inl e)
          with assms seed nz Some filled cmask show ?thesis by (simp add: scan_step_def)
        next
          case acc: (Inr accepted)
          show ?thesis
          proof (cases accepted)
            case False
            with assms seed nz Some filled cmask acc show ?thesis by (simp add: scan_step_def)
          next
            case True
            have "rects' = rects @ [rect]"
            proof (cases "debug \<and> w div 20 = 0")
              case True
              with assms seed nz Some filled cmask acc \<open>accepted\<close> show ?thesis
                by (simp add: scan_step_def)
            next
              case False
              with assms seed nz Some filled cmask acc \<open>accepted\<close> show ?thesis
                by (cases "bitwise_or character_mask cm"; cases debug) (simp_all add: scan_step_def)
            qed
            with seed nz Some filled cmask acc True show ?thesis by auto
          qed
        qed
      qed
    qed
  qed
qed

lemma scan_step_loosened:
  assumes same: "\<forall>k. k \<notin> {''min_character_width'', ''min_character_height'',
                         ''min_pixel_density''} \<longrightarrow> p_small k = p_big k"
    and w: "p_small ''min_character_width'' = Some w1" "p_big ''min_character_width'' = Some w2"
      "w1 \<le> w2"
    and h: "p_small ''min_character_height'' = Some h1" "p_big ''min_character_height'' = Some h2"
      "h1 \<le> h2"
    and d: "p_small ''min_pixel_density'' = Some d1" "p_big ''min_pixel_density'' = Some d2"
      "d1 \<le> d2"
    and big: "scan_step cv p_big debug im nbm iw ih ct x (rb, mb) = Inr (rb', mb')"
    and small: "scan_step cv p_small debug im nbm iw ih ct x (rs, ms) = Inr (rs', ms')"
    and sub: "subseq rb rs"
  shows "subseq rb' rs'"
proof -
  from scan_step_outcome [OF small] have s: "subseq rs rs'" by auto
  from scan_step_outcome [OF big] show ?thesis
  proof
    assume "rb' = rb"
    moreover from sub s have "subseq rb rs'" by (rule subseq_order.order_trans)
    ultimately show ?thesis by simp
  next
    assume "\<exists>dr fm rect character_mask seed.
             index2 nbm (ih div 2) x = Inr seed \<and> seed \<noteq> 0
             \<and> floodFill cv im (zeros (ih + 2) (iw + 2)) (int x, int (ih div 2)) (255, 255, 255) ct ct
               = Some (dr, fm, rect)
             \<and> character_mask_of fm nbm = Some character_mask
             \<and> filter_candidate p_big character_mask rect = Inr True
             \<and> rb' = rb @ [rect]"
    then obtain dr fm rect character_mask seed where
      sd: "index2 nbm (ih div 2) x = Inr seed" "seed \<noteq> 0"
      and f: "floodFill cv im (zeros (ih + 2) (iw + 2)) (int x, int (ih div 2)) (255, 255, 255) ct ct
               = Some (dr, fm, rect)"
      and c: "character_mask_of fm nbm = Some character_mask"
      and a: "filter_candidate p_big character_mask rect = Inr True"
      and rb': "rb' = rb @ [rect]" by blast
    have a': "filter_candidate p_small character_mask rect = Inr True"
      by (rule filter_candidate_loosened [OF same w h d a])
    have "rs' = rs @ [rect]"
    proof (cases "debug \<and> iw div 20 = 0")
      case True
      with small sd f c a' show ?thesis by (simp add: scan_step_def)
    next
      case False
      with small sd f c a' show ?thesis
        by (cases "bitwise_or character_mask ms"; cases debug) (simp_all add: scan_step_def)
    qed
    then show ?thesis using rb' sub by simp
  qed
qed

subsection \<open>Cutting and resizing\<close>

lemma zeros_one: "zeros 1 1 = [[0]]"
  by (simp add: zeros_def)

lemma black_pixel_step_small:
  "scan_step black_pixel_cv2 (resolve (Some small_glyphs)) False black_pixel [[255]] 1 1
     (39, 39, 39) 0 ([], zeros 1 1) = Inr ([(0, 0, 1, 1)], [[255]])"
  using full_density unfolding zeros_one
  by (simp add: scan_step_def black_pixel_seed black_pixel_flood black_pixel_character_mask
      filter_candidate_eq [OF small_values(7-11)] black_pixel_count bitwise_or_def same_shape_def
      del: One_nat_def)

lemma cut_characters_nth:
  "cut_characters cv m ow oh rects = Inr characters \<Longrightarrow>
   length characters = length rects
   \<and> (\<forall>k < length rects. cut_character cv m ow oh (rects ! k) = Inr (characters ! k))"
proof (induction rects arbitrary: characters)
  case Nil
  then show ?case by simp
next
  case (Cons rect rects)
  from Cons.prems obtain c where c: "cut_character cv m ow oh rect = Inr c"
    by (cases "cut_character cv m ow oh rect") simp_all
  from Cons.prems c obtain cs where cs: "cut_characters cv m ow oh rects = Inr cs"
    by (cases "cut_characters cv m ow oh rects") simp_all
  from Cons.prems c cs have chars: "characters = c # cs" by simp
  from Cons.IH [OF cs] have ih: "length cs = length rects"
    "\<forall>k < length rects. cut_character cv m ow oh (rects ! k) = Inr (cs ! k)" by simp_all
  show ?case
  proof (intro conjI allI impI)
    show "length characters = length (rect # rects)" using chars ih by simp
  next
    fix k
    assume "k < length (rect # rects)"
    then show "cut_character cv m ow oh ((rect # rects) ! k) = Inr (characters ! k)"
      using c chars ih by (cases k) simp_all
  qed
qed

lemma resize_shape:
  assumes "resize cv src (ow, oh) = Some dst"
  shows "int (shape0 dst) = oh \<and> (\<forall>row \<in> set dst. int (length row) = ow)"
proof -
  from assms have pos: "0 < ow" "0 < oh"
    by (auto simp: resize_def Let_def split: if_splits)
  from assms have "dst = map (\<lambda>y. map (\<lambda>x. src ! min (nearest_index cv (nat oh) (shape0 src) y)
                                                    (shape0 src - 1)
                                           ! min (nearest_index cv (nat ow) (shape1 src) x)
                                                    (shape1 src - 1))
                                  [0..<nat ow])
                        [0..<nat oh]"
    by (auto simp: resize_def Let_def split: if_splits)
  then show ?thesis using pos by (auto simp: shape0_def)
qed

lemma resize_values:
  assumes "resize cv src (ow, oh) = Some dst"
    and rect: "\<forall>r \<in> set src. length r = shape1 src"
    and "row \<in> set dst" and "v \<in> set row"
  shows "\<exists>r \<in> set src. v \<in> set r"
proof -
  from assms(1) have ne: "0 < shape1 src" "0 < shape0 src"
    by (auto simp: resize_def Let_def split: if_splits)
  from assms(1) have dst: "dst = map (\<lambda>y. map (\<lambda>x. src ! min (nearest_index cv (nat oh) (shape0 src) y)
                                                    (shape0 src - 1)
                                           ! min (nearest_index cv (nat ow) (shape1 src) x)
                                                    (shape1 src - 1))
                                  [0..<nat ow])
                        [0..<nat oh]"
    by (auto simp: resize_def Let_def split: if_splits)
  from dst assms(3,4) obtain y x where
    v: "v = src ! min (nearest_index cv (nat oh) (shape0 src) y) (shape0 src - 1)
              ! min (nearest_index cv (nat ow) (shape1 src) x) (shape1 src - 1)"
    by auto
  let ?a = "min (nearest_index cv (nat oh) (shape0 src) y) (shape0 src - 1)"
  let ?b = "min (nearest_index cv (nat ow) (shape1 src) x) (shape1 src - 1)"
  have a: "?a < length src" using ne(2) unfolding shape0_def by arith
  then have mem: "src ! ?a \<in> set src" by simp
  with rect have "length (src ! ?a) = shape1 src" by blast
  then have "?b < length (src ! ?a)" using ne(1) by arith
  then have "src ! ?a ! ?b \<in> set (src ! ?a)" by simp
  with mem v show ?thesis by blast
qed

lemma crop_rows:
  assumes "\<forall>r \<in> set m. length r = shape1 m"
  shows "\<forall>r \<in> set (crop m rect). length r = shape1 (crop m rect)"
proof -
  obtain x y w h where rect: "rect = (x, y, w, h)" by (cases rect)
  define n where "n = length (py_slice x (x + w) (replicate (shape1 m) (0 :: pixel)))"
  have each: "length r = n" if "r \<in> set (crop m rect)" for r
  proof -
    from that obtain r0 where r0: "r0 \<in> set (py_slice y (y + h) m)" "r = py_slice x (x + w) r0"
      by (auto simp: crop_def rect slice2_def)
    from r0(1) set_py_slice [of y "y + h" m] have "r0 \<in> set m" by blast
    with assms have "length r0 = length (replicate (shape1 m) (0 :: pixel))" by simp
    then show ?thesis unfolding n_def r0(2) by (rule length_py_slice)
  qed
  show ?thesis
  proof (cases "crop m rect")
    case Nil
    then show ?thesis by simp
  next
    case (Cons r rs)
    then have "shape1 (crop m rect) = length r" by (simp add: shape1_def)
    moreover have "length r = n" using each Cons by simp
    ultimately show ?thesis using each by simp
  qed
qed

lemma checker_resized:
  "cut_characters black_pixel_cv2 checker (Some 2) (Some 1) [(0, 0, 2, 2)] = Inr [[[0, 255]]]"
  by (simp add: cut_character_def crop_def checker_def slice2_def py_slice_def resize_def
      shape0_def shape1_def black_pixel_cv2_def Let_def upt_conv_Cons)

subsection \<open>What the entry point returns\<close>

lemma single_values:
  "resolve (Some single_glyph) ''no_background_mask_blur_kernel_x'' = Some 3"
  "resolve (Some single_glyph) ''no_background_mask_blur_kernel_y'' = Some 3"
  "resolve (Some single_glyph) ''no_background_mask_threshold'' = Some 180"
  "resolve (Some single_glyph) ''no_background_mask_erode_kernel_x'' = Some 3"
  "resolve (Some single_glyph) ''no_background_mask_erode_kernel_y'' = Some 2"
  "resolve (Some single_glyph) ''floodfill_threshold'' = Some 39"
  "resolve (Some single_glyph) ''min_character_width'' = Some 1"
  "resolve (Some single_glyph) ''max_character_width'' = Some 110"
  "resolve (Some single_glyph) ''min_character_height'' = Some 1"
  "resolve (Some single_glyph) ''max_character_height'' = Some 110"
  "resolve (Some single_glyph) ''min_pixel_density'' = Some 12"
  "resolve (Some single_glyph) ''rects_group_threshold'' = Some 0"
  "resolve (Some single_glyph) ''rects_group_eps'' = Some 45"
  by (simp_all add: resolve_at PARAMS_DEFAULT_def single_glyph_def)

lemma black_pixel_step_single:
  "scan_step black_pixel_cv2 (resolve (Some single_glyph)) False black_pixel [[255]] 1 1
     (39, 39, 39) 0 ([], zeros 1 1) = Inr ([(0, 0, 1, 1)], [[255]])"
  using full_density unfolding zeros_one
  by (simp add: scan_step_def black_pixel_seed black_pixel_flood black_pixel_character_mask
      filter_candidate_eq [OF single_values(7-11)] black_pixel_count bitwise_or_def same_shape_def
      del: One_nat_def)

lemma black_pixel_refined: "fix_empty_pixels cv [[255]] = Some [[255]]"
  by (simp add: fix_empty_pixels_def dilate_def erode_def shape0_def shape1_def column_kernel_def)

lemma black_pixel_cut:
  "cut_characters black_pixel_cv2 [[255]] None None [(0, 0, 1, 1)] = Inr [[[255]]]"
  "cut_characters black_pixel_cv2 [[255]] (Some 1) (Some 1) [(0, 0, 1, 1)] = Inr [[[255]]]"
  by (simp_all add: cut_character_def crop_def slice2_def py_slice_def resize_def
      shape0_def shape1_def black_pixel_cv2_def Let_def)

lemma black_pixel_group_and_cut:
  "group_and_cut black_pixel_cv2 (resolve (Some single_glyph)) None None
     ([(0, 0, 1, 1)], [[255]]) = Inr [[[255]]]"
  "group_and_cut black_pixel_cv2 (resolve (Some single_glyph)) (Some 1) (Some 1)
     ([(0, 0, 1, 1)], [[255]]) = Inr [[[255]]]"
  using black_pixel_cut
  by (simp_all add: group_and_cut_def lookup_def single_values black_pixel_refined
      black_pixel_cv2_def)

lemma black_pixel_single:
  "snd (extract_characters black_pixel_cv2 black_pixel None None False (Some single_glyph))
     = Inr [[[255]]]"
  "snd (extract_characters black_pixel_cv2 black_pixel (Some 1) (Some 1) False (Some single_glyph))
     = Inr [[[255]]]"
  by (simp_all add: extract_characters_def exceeds_def segment_def black_pixel_shape upt_one
      black_pixel_background_mask [OF single_values(1-5)] black_pixel_remove_background
      lookup_def single_values(6) black_pixel_step_single black_pixel_group_and_cut
      del: One_nat_def upt_Suc)

lemma group_and_cut_returns:
  assumes "group_and_cut cv p ow oh st = Inr characters"
  shows "characters = []
       \<or> (\<exists>group_threshold eps rects_grouped m.
             groupRectangles cv (fst st) group_threshold eps = Some rects_grouped
             \<and> fix_empty_pixels cv (snd st) = Some m
             \<and> cut_characters cv m ow oh rects_grouped = Inr characters)"
proof (cases "fst st = []")
  case True
  with assms show ?thesis by (simp add: group_and_cut_def)
next
  case False
  from assms False obtain gt where gt: "lookup p ''rects_group_threshold'' = Inr gt"
    by (cases "lookup p ''rects_group_threshold''") (simp_all add: group_and_cut_def)
  from assms False gt obtain eps where eps: "lookup p ''rects_group_eps'' = Inr eps"
    by (cases "lookup p ''rects_group_eps''") (simp_all add: group_and_cut_def)
  let ?e = "to_double (to_double (of_int eps) / 100)"
  from assms False gt eps obtain rg where rg: "groupRectangles cv (fst st) gt ?e = Some rg"
    by (cases "groupRectangles cv (fst st) gt ?e") (simp_all add: group_and_cut_def)
  from assms False gt eps rg obtain m where m: "fix_empty_pixels cv (snd st) = Some m"
    by (cases "fix_empty_pixels cv (snd st)") (simp_all add: group_and_cut_def)
  from assms False gt eps rg m have "cut_characters cv m ow oh rg = Inr characters"
    by (simp add: group_and_cut_def)
  with rg m show ?thesis by blast
qed

lemma segment_returns:
  assumes "segment cv img ow oh debug p = Inr characters"
  shows "\<exists>st. group_and_cut cv p ow oh st = Inr characters"
proof -
  from assms obtain nbm where nbm: "background_mask cv p img = Inr nbm"
    by (cases "background_mask cv p img") (simp_all add: segment_def)
  from assms nbm obtain im where im: "remove_background cv img nbm = Inr im"
    by (cases "remove_background cv img nbm") (simp_all add: segment_def)
  from assms nbm im obtain t where t: "lookup p ''floodfill_threshold'' = Inr t"
    by (cases "lookup p ''floodfill_threshold''") (simp_all add: segment_def)
  let ?scan = "scan cv p debug im nbm (shape1 img) (shape0 img) (t, t, t) [0..<shape1 img]
                 ([], zeros (shape0 img) (shape1 img))"
  from assms nbm im t obtain st where st: "?scan = Inr st"
    by (cases ?scan) (simp_all add: segment_def)
  from assms nbm im t st have "group_and_cut cv p ow oh st = Inr characters"
    by (simp add: segment_def)
  then show ?thesis ..
qed

lemma extract_characters_returns:
  assumes "snd (extract_characters cv img ow oh debug params_arg) = Inr characters"
  shows "characters = []
       \<or> (\<exists>rects group_threshold eps rects_grouped m.
             groupRectangles cv rects group_threshold eps = Some rects_grouped
             \<and> cut_characters cv m ow oh rects_grouped = Inr characters)"
proof -
  from assms have "segment cv img ow oh debug (resolve params_arg) = Inr characters"
    by (simp add: extract_characters_def split: if_splits)
  from segment_returns [OF this] obtain st where
    "group_and_cut cv (resolve params_arg) ow oh st = Inr characters" ..
  from group_and_cut_returns [OF this] show ?thesis by blast
qed

lemma segment_stages:
  assumes "segment cv img ow oh debug p = Inr characters"
  shows "\<exists>no_background_mask image_masked t rects characters_mask.
           background_mask cv p img = Inr no_background_mask
         \<and> remove_background cv img no_background_mask = Inr image_masked
         \<and> lookup p ''floodfill_threshold'' = Inr t
         \<and> scan cv p debug image_masked no_background_mask (shape1 img) (shape0 img) (t, t, t)
               [0..<shape1 img] ([], zeros (shape0 img) (shape1 img))
             = Inr (rects, characters_mask)
         \<and> group_and_cut cv p ow oh (rects, characters_mask) = Inr characters"
proof -
  from assms obtain nbm where nbm: "background_mask cv p img = Inr nbm"
    by (cases "background_mask cv p img") (simp_all add: segment_def)
  from assms nbm obtain im where im: "remove_background cv img nbm = Inr im"
    by (cases "remove_background cv img nbm") (simp_all add: segment_def)
  from assms nbm im obtain t where t: "lookup p ''floodfill_threshold'' = Inr t"
    by (cases "lookup p ''floodfill_threshold''") (simp_all add: segment_def)
  let ?scan = "scan cv p debug im nbm (shape1 img) (shape0 img) (t, t, t) [0..<shape1 img]
                 ([], zeros (shape0 img) (shape1 img))"
  from assms nbm im t obtain rects cm where st: "?scan = Inr (rects, cm)"
    by (cases ?scan) (auto simp: segment_def)
  from assms nbm im t st have "group_and_cut cv p ow oh (rects, cm) = Inr characters"
    by (simp add: segment_def)
  with nbm im t st show ?thesis by blast
qed

lemma group_and_cut_stages:
  assumes "group_and_cut cv p ow oh (rects, characters_mask) = Inr characters"
    and "rects \<noteq> []"
  shows "\<exists>group_threshold eps rects_grouped refined_mask.
           lookup p ''rects_group_threshold'' = Inr group_threshold
         \<and> lookup p ''rects_group_eps'' = Inr eps
         \<and> groupRectangles cv rects group_threshold (to_double (to_double (of_int eps) / 100))
             = Some rects_grouped
         \<and> fix_empty_pixels cv characters_mask = Some refined_mask
         \<and> cut_characters cv refined_mask ow oh rects_grouped = Inr characters"
proof -
  from assms obtain gt where gt: "lookup p ''rects_group_threshold'' = Inr gt"
    by (cases "lookup p ''rects_group_threshold''") (simp_all add: group_and_cut_def)
  from assms gt obtain eps where eps: "lookup p ''rects_group_eps'' = Inr eps"
    by (cases "lookup p ''rects_group_eps''") (simp_all add: group_and_cut_def)
  let ?e = "to_double (to_double (of_int eps) / 100)"
  from assms gt eps obtain rg where rg: "groupRectangles cv rects gt ?e = Some rg"
    by (cases "groupRectangles cv rects gt ?e") (simp_all add: group_and_cut_def)
  from assms gt eps rg obtain m where m: "fix_empty_pixels cv characters_mask = Some m"
    by (cases "fix_empty_pixels cv characters_mask") (simp_all add: group_and_cut_def)
  from assms gt eps rg m have "cut_characters cv m ow oh rg = Inr characters"
    by (simp add: group_and_cut_def)
  with gt eps rg m show ?thesis by blast
qed

lemma two_glyphs_values:
  "resolve (Some two_glyphs_params) ''no_background_mask_blur_kernel_x'' = Some 1"
  "resolve (Some two_glyphs_params) ''no_background_mask_blur_kernel_y'' = Some 1"
  "resolve (Some two_glyphs_params) ''no_background_mask_threshold'' = Some 180"
  "resolve (Some two_glyphs_params) ''no_background_mask_erode_kernel_x'' = Some 3"
  "resolve (Some two_glyphs_params) ''no_background_mask_erode_kernel_y'' = Some 2"
  "resolve (Some two_glyphs_params) ''floodfill_threshold'' = Some 39"
  "resolve (Some two_glyphs_params) ''min_character_width'' = Some 1"
  "resolve (Some two_glyphs_params) ''max_character_width'' = Some 110"
  "resolve (Some two_glyphs_params) ''min_character_height'' = Some 1"
  "resolve (Some two_glyphs_params) ''max_character_height'' = Some 110"
  "resolve (Some two_glyphs_params) ''min_pixel_density'' = Some 12"
  "resolve (Some two_glyphs_params) ''rects_group_threshold'' = Some 0"
  "resolve (Some two_glyphs_params) ''rects_group_eps'' = Some 45"
  by (simp_all add: resolve_at PARAMS_DEFAULT_def two_glyphs_params_def)

lemma two_glyphs_shape: "shape1 two_glyphs = 3" "shape0 two_glyphs = 3"
  by (simp_all add: shape1_def shape0_def two_glyphs_def)

lemma two_glyphs_background_mask:
  "background_mask two_glyphs_cv2 (resolve (Some two_glyphs_params)) two_glyphs
     = Inr two_glyphs_mask"
  by (simp add: background_mask_def lookup_def two_glyphs_values two_glyphs_cv2_def erode_def
      shape0_def shape1_def column_kernel_def two_glyphs_mask_def)

lemma two_glyphs_remove_background:
  "remove_background two_glyphs_cv2 two_glyphs two_glyphs_mask = Inr two_glyphs_masked"
  by (simp add: remove_background_def two_glyphs_cv2_def bitwise_and_bgr_def same_shape_def
      two_glyphs_def two_glyphs_mask_def two_glyphs_masked_def and_bgr_def)

lemma two_glyphs_seeds:
  "index2 two_glyphs_mask (Suc 0) 0 = Inr 0"
  "index2 two_glyphs_mask (Suc 0) (Suc 0) = Inr 255"
  "index2 two_glyphs_mask (Suc 0) 2 = Inr 255"
  by (simp_all add: index2_def two_glyphs_mask_def)

lemma two_glyphs_character_masks:
  "character_mask_of gray_fill two_glyphs_mask = Some [[0, 255, 255], [0, 0, 255], [0, 0, 0]]"
  "character_mask_of black_fill two_glyphs_mask = Some [[0, 255, 255], [0, 255, 0], [0, 0, 0]]"
  by (simp_all add: character_mask_of_def gray_fill_def black_fill_def two_glyphs_mask_def
      slice2_def py_slice_def bitwise_and_def same_shape_def)

lemma two_glyphs_counts:
  "countNonZero (crop [[0, 255, 255], [0, 0, 255], [0, 0, 0]] (1, 0, 1, 2)) = 1"
  "countNonZero (crop [[0, 255, 255], [0, 255, 0], [0, 0, 0]] (0, 0, 3, 3)) = 3"
  by (simp_all add: countNonZero_def crop_def slice2_def py_slice_def)

lemma two_glyphs_densities:
  "of_int 12 \<le> to_double (to_double (of_int 1 / of_int (1 * 2)) * 100)"
  "of_int 12 \<le> to_double (to_double (of_int 3 / of_int (3 * 3)) * 100)"
  by code_simp+

lemma two_glyphs_filter:
  "filter_candidate (resolve (Some two_glyphs_params))
     [[0, 255, 255], [0, 0, 255], [0, 0, 0]] (1, 0, 1, 2) = Inr True"
  "filter_candidate (resolve (Some two_glyphs_params))
     [[0, 255, 255], [0, 255, 0], [0, 0, 0]] (0, 0, 3, 3) = Inr True"
  using two_glyphs_densities
  by (simp_all add: filter_candidate_eq [OF two_glyphs_values(7-11)] two_glyphs_counts)

lemma two_glyphs_flood:
  "floodFill two_glyphs_cv2 img mask_temp (1, 1) new_val lo_diff up_diff
     = Some ([[(0, 0, 0), (255, 255, 255), (0, 0, 0)],
              [(0, 0, 0), (255, 255, 255), (0, 0, 0)],
              [(0, 0, 0), (0, 0, 0), (0, 0, 0)]], gray_fill, (1, 0, 1, 2))"
  "floodFill two_glyphs_cv2 img mask_temp (2, 1) new_val lo_diff up_diff
     = Some ([[(255, 255, 255), (100, 100, 100), (255, 255, 255)],
              [(255, 255, 255), (100, 100, 100), (255, 255, 255)],
              [(255, 255, 255), (255, 255, 255), (255, 255, 255)]],
             black_fill, (0, 0, 3, 3))"
  by (simp_all add: two_glyphs_cv2_def)

lemma two_glyphs_aggregate:
  "bitwise_or [[0, 255, 255], [0, 0, 255], [0, 0, 0]] [[0, 0, 0], [0, 0, 0], [0, 0, 0]]
     = Some [[0, 255, 255], [0, 0, 255], [0, 0, 0]]"
  "bitwise_or [[0, 255, 255], [0, 255, 0], [0, 0, 0]] [[0, 255, 255], [0, 0, 255], [0, 0, 0]]
     = Some two_glyphs_mask"
  by (simp_all add: bitwise_or_def same_shape_def two_glyphs_mask_def)

lemma zeros_three: "zeros 3 3 = [[0, 0, 0], [0, 0, 0], [0, 0, 0]]"
  by (simp add: zeros_def numeral_3_eq_3)

lemma two_glyphs_step0:
  "scan_step two_glyphs_cv2 (resolve (Some two_glyphs_params)) False two_glyphs_masked
     two_glyphs_mask 3 3 (39, 39, 39) 0 st = Inr st"
  by (simp add: scan_step_def two_glyphs_seeds)

lemma two_glyphs_step1:
  "scan_step two_glyphs_cv2 (resolve (Some two_glyphs_params)) False two_glyphs_masked
     two_glyphs_mask 3 3 (39, 39, 39) 1 ([], zeros 3 3)
   = Inr ([(1, 0, 1, 2)], [[0, 255, 255], [0, 0, 255], [0, 0, 0]])"
  by (simp add: scan_step_def two_glyphs_seeds two_glyphs_flood two_glyphs_character_masks
      two_glyphs_filter two_glyphs_aggregate zeros_three)

lemma two_glyphs_step2:
  "scan_step two_glyphs_cv2 (resolve (Some two_glyphs_params)) False two_glyphs_masked
     two_glyphs_mask 3 3 (39, 39, 39) 2 ([(1, 0, 1, 2)], [[0, 255, 255], [0, 0, 255], [0, 0, 0]])
   = Inr ([(1, 0, 1, 2), (0, 0, 3, 3)], two_glyphs_mask)"
  by (simp add: scan_step_def two_glyphs_seeds two_glyphs_flood two_glyphs_character_masks
      two_glyphs_filter two_glyphs_aggregate)

lemma upt_three: "[0..<3] = [0, 1, 2 :: nat]"
  by (simp add: upt_rec)

lemma two_glyphs_scan:
  "scan two_glyphs_cv2 (resolve (Some two_glyphs_params)) False two_glyphs_masked
     two_glyphs_mask 3 3 (39, 39, 39) [0..<3] ([], zeros 3 3)
   = Inr ([(1, 0, 1, 2), (0, 0, 3, 3)], two_glyphs_mask)"
  unfolding upt_three
  by (simp add: two_glyphs_step0 two_glyphs_step1 two_glyphs_step2 del: One_nat_def)

lemma two_glyphs_clustered:
  "groupRectangles two_glyphs_cv2 [(1, 0, 1, 2), (0, 0, 3, 3)] 0 eps
     = Some [(1, 0, 1, 2), (0, 0, 3, 3)]"
  by (simp add: two_glyphs_cv2_def)

lemma two_glyphs_fix_empty_pixels:
  "fix_empty_pixels cv two_glyphs_mask = Some two_glyphs_refined"
  by (simp add: fix_empty_pixels_def dilate_def erode_def shape0_def shape1_def column_kernel_def
      two_glyphs_mask_def two_glyphs_refined_def)

lemma two_glyphs_cuts:
  "cut_character cv two_glyphs_refined None None (1, 0, 1, 2) = Inr [[255], [255]]"
  "cut_character cv two_glyphs_refined None None (0, 0, 3, 3) = Inr two_glyphs_refined"
  by (simp_all add: cut_character_def crop_def slice2_def py_slice_def two_glyphs_refined_def)

lemma two_glyphs_result:
  "snd (extract_characters two_glyphs_cv2 two_glyphs None None False (Some two_glyphs_params))
     = Inr [[[255], [255]], two_glyphs_refined]"
  by (simp add: extract_characters_def exceeds_def segment_def two_glyphs_shape
      two_glyphs_background_mask two_glyphs_remove_background lookup_def two_glyphs_values
      two_glyphs_scan group_and_cut_def two_glyphs_clustered two_glyphs_fix_empty_pixels
      two_glyphs_cuts del: upt_Suc)

section \<open>The claims\<close>

text \<open>
  C1. \<^verbatim>\<open>extract_characters\<close> raises the invalid-size exception exactly when the requested
  width exceeds the image width or the requested height exceeds the image height; the outcome
  is then the same whatever the library would do, so the check comes before any segmentation,
  and a request of 64 by 64 on an image of width 50 fails. Other exceptions remain possible.
\<close>

theorem invalid_size_iff:
  "((\<exists>msg. snd (extract_characters cv img output_width output_height debug params_arg)
             = Inl (Exception msg))
      \<longleftrightarrow> exceeds output_width (shape1 img) \<or> exceeds output_height (shape0 img))
   \<and> (exceeds output_width (shape1 img) \<or> exceeds output_height (shape0 img) \<longrightarrow>
        snd (extract_characters cv img output_width output_height debug params_arg)
          = snd (extract_characters cv' img output_width output_height debug params_arg))
   \<and> (shape1 img = 50 \<longrightarrow>
        snd (extract_characters cv img (Some 64) (Some 64) debug params_arg)
          = Inl (Exception width_message))"
  using other_segment [of cv img output_width output_height debug "resolve params_arg"]
  by (auto simp: extract_characters_def other_error_def exceeds_def)

theorem invalid_size_iff_witness:
  "exceeds (Some 64) (shape1 strip50) \<and> shape1 strip50 = 50
   \<and> snd (extract_characters black_pixel_cv2 strip50 (Some 64) (Some 64) False None)
       = Inl (Exception width_message)
   \<and> snd (extract_characters black_pixel_cv2 strip50 (Some 64) (Some 64) False None)
       = snd (extract_characters
                (black_pixel_cv2\<lparr>cvtColor_BGR2GRAY := (\<lambda>img. None)\<rparr>) strip50
                (Some 64) (Some 64) False None)"
proof -
  have w: "shape1 strip50 = 50" by (simp add: shape1_def strip50_def)
  then have e: "exceeds (Some 64) (shape1 strip50)" by (simp add: exceeds_def)
  from invalid_size_iff [of black_pixel_cv2 strip50 "Some 64" "Some 64" False None
      "black_pixel_cv2\<lparr>cvtColor_BGR2GRAY := (\<lambda>img. None)\<rparr>" ] w e
  show ?thesis by blast
qed

text \<open>
  The claim as it was worded (an error is raised only for an invalid size) fails: in debug mode,
  on the image of one black pixel with the minimal glyph size set to one, no size is requested
  and line 189 divides by \<^verbatim>\<open>image_w // 20 = 0\<close>.
\<close>

theorem debug_raises_counterexample:
  "snd (extract_characters black_pixel_cv2 black_pixel None None True (Some small_glyphs))
     = Inl ZeroDivisionError
   \<and> \<not> exceeds None (shape1 black_pixel) \<and> \<not> exceeds None (shape0 black_pixel)"
  by (simp add: extract_characters_def exceeds_def segment_def black_pixel_shape upt_one
      black_pixel_background_mask [OF small_values(1-5)] black_pixel_remove_background
      lookup_def small_values(6) black_pixel_step_debug del: One_nat_def upt_Suc)

text \<open>
  C2. Whenever \<^verbatim>\<open>extract_characters\<close> returns a list, the stages of that run returned a
  background mask, a masked image and, from the sweep, a rectangle list and an aggregate mask.
  If the sweep accepted no rectangle the list is empty. Otherwise the clusterer, called on the
  rectangles of the sweep with the two grouping parameters, returned a list of rectangles, the
  refiner returned a mask from the aggregate mask of the sweep, and the returned list follows
  the clusterer's list: there are as many characters as clustered rectangles and the \<open>k\<close>-th
  character is the cut of the refined mask (and the resampling, when a size is requested) at the
  \<open>k\<close>-th clustered rectangle. No sort by \<open>x\<close> takes place.
\<close>

theorem characters_in_clusterer_order:
  assumes "snd (extract_characters cv img output_width output_height debug params_arg)
             = Inr returned"
  shows "\<exists>no_background_mask image_masked t rects characters_mask.
           background_mask cv (resolve params_arg) img = Inr no_background_mask
         \<and> remove_background cv img no_background_mask = Inr image_masked
         \<and> lookup (resolve params_arg) ''floodfill_threshold'' = Inr t
         \<and> scan cv (resolve params_arg) debug image_masked no_background_mask
               (shape1 img) (shape0 img) (t, t, t) [0..<shape1 img]
               ([], zeros (shape0 img) (shape1 img)) = Inr (rects, characters_mask)
         \<and> (rects = [] \<longrightarrow> returned = [])
         \<and> (rects \<noteq> [] \<longrightarrow>
              (\<exists>group_threshold eps rects_grouped refined_mask.
                 lookup (resolve params_arg) ''rects_group_threshold'' = Inr group_threshold
               \<and> lookup (resolve params_arg) ''rects_group_eps'' = Inr eps
               \<and> groupRectangles cv rects group_threshold
                     (to_double (to_double (of_int eps) / 100)) = Some rects_grouped
               \<and> fix_empty_pixels cv characters_mask = Some refined_mask
               \<and> length returned = length rects_grouped
               \<and> (\<forall>k < length rects_grouped.
                     cut_character cv refined_mask output_width output_height (rects_grouped ! k)
                       = Inr (returned ! k))))"
proof -
  from assms have "segment cv img output_width output_height debug (resolve params_arg)
                     = Inr returned"
    by (simp add: extract_characters_def split: if_splits)
  from segment_stages [OF this] obtain nbm im t rects cm where
    nbm: "background_mask cv (resolve params_arg) img = Inr nbm"
    and im: "remove_background cv img nbm = Inr im"
    and t: "lookup (resolve params_arg) ''floodfill_threshold'' = Inr t"
    and st: "scan cv (resolve params_arg) debug im nbm (shape1 img) (shape0 img) (t, t, t)
               [0..<shape1 img] ([], zeros (shape0 img) (shape1 img)) = Inr (rects, cm)"
    and gc: "group_and_cut cv (resolve params_arg) output_width output_height (rects, cm)
               = Inr returned"
    by blast
  have none: "rects = [] \<longrightarrow> returned = []"
    using gc by (auto simp: group_and_cut_def)
  have some: "\<exists>group_threshold eps rects_grouped refined_mask.
                 lookup (resolve params_arg) ''rects_group_threshold'' = Inr group_threshold
               \<and> lookup (resolve params_arg) ''rects_group_eps'' = Inr eps
               \<and> groupRectangles cv rects group_threshold
                     (to_double (to_double (of_int eps) / 100)) = Some rects_grouped
               \<and> fix_empty_pixels cv cm = Some refined_mask
               \<and> length returned = length rects_grouped
               \<and> (\<forall>k < length rects_grouped.
                     cut_character cv refined_mask output_width output_height (rects_grouped ! k)
                       = Inr (returned ! k))"
    if "rects \<noteq> []"
  proof -
    from group_and_cut_stages [OF gc that] obtain gt eps rg m where
      gt: "lookup (resolve params_arg) ''rects_group_threshold'' = Inr gt"
      and eps: "lookup (resolve params_arg) ''rects_group_eps'' = Inr eps"
      and rg: "groupRectangles cv rects gt (to_double (to_double (of_int eps) / 100)) = Some rg"
      and m: "fix_empty_pixels cv cm = Some m"
      and cut: "cut_characters cv m output_width output_height rg = Inr returned"
      by blast
    from cut_characters_nth [OF cut] gt eps rg m show ?thesis by blast
  qed
  from nbm im t st none some show ?thesis by blast
qed

theorem characters_in_clusterer_order_witness:
  "snd (extract_characters two_glyphs_cv2 two_glyphs None None False (Some two_glyphs_params))
     = Inr [[[255], [255]], two_glyphs_refined]
   \<and> scan two_glyphs_cv2 (resolve (Some two_glyphs_params)) False two_glyphs_masked
        two_glyphs_mask 3 3 (39, 39, 39) [0..<3] ([], zeros 3 3)
       = Inr ([(1, 0, 1, 2), (0, 0, 3, 3)], two_glyphs_mask)
   \<and> groupRectangles two_glyphs_cv2 [(1, 0, 1, 2), (0, 0, 3, 3)] 0
        (to_double (to_double (of_int 45) / 100)) = Some [(1, 0, 1, 2), (0, 0, 3, 3)]
   \<and> fix_empty_pixels two_glyphs_cv2 two_glyphs_mask = Some two_glyphs_refined
   \<and> cut_character two_glyphs_cv2 two_glyphs_refined None None (1, 0, 1, 2)
       = Inr ([[[255], [255]], two_glyphs_refined] ! 0)
   \<and> cut_character two_glyphs_cv2 two_glyphs_refined None None (0, 0, 3, 3)
       = Inr ([[[255], [255]], two_glyphs_refined] ! 1)"
proof -
  let ?p = "resolve (Some two_glyphs_params)"
  let ?out = "[[[255], [255]], two_glyphs_refined]"
  let ?rects = "[(1, 0, 1, 2), (0, 0, 3, 3) :: rect]"
  from characters_in_clusterer_order [OF two_glyphs_result]
  obtain nbm im t rects cm where
    a: "background_mask two_glyphs_cv2 ?p two_glyphs = Inr nbm"
    and b: "remove_background two_glyphs_cv2 two_glyphs nbm = Inr im"
    and c: "lookup ?p ''floodfill_threshold'' = Inr t"
    and d: "scan two_glyphs_cv2 ?p False im nbm (shape1 two_glyphs) (shape0 two_glyphs) (t, t, t)
              [0..<shape1 two_glyphs] ([], zeros (shape0 two_glyphs) (shape1 two_glyphs))
            = Inr (rects, cm)"
    and e: "rects \<noteq> [] \<longrightarrow>
              (\<exists>group_threshold eps rects_grouped refined_mask.
                 lookup ?p ''rects_group_threshold'' = Inr group_threshold
               \<and> lookup ?p ''rects_group_eps'' = Inr eps
               \<and> groupRectangles two_glyphs_cv2 rects group_threshold
                     (to_double (to_double (of_int eps) / 100)) = Some rects_grouped
               \<and> fix_empty_pixels two_glyphs_cv2 cm = Some refined_mask
               \<and> length ?out = length rects_grouped
               \<and> (\<forall>k < length rects_grouped.
                     cut_character two_glyphs_cv2 refined_mask None None (rects_grouped ! k)
                       = Inr (?out ! k)))"
    by blast
  from a have nbm: "nbm = two_glyphs_mask" by (simp add: two_glyphs_background_mask)
  from b nbm have im: "im = two_glyphs_masked" by (simp add: two_glyphs_remove_background)
  from c have t: "t = 39" by (simp add: lookup_def two_glyphs_values)
  from d nbm im t have st: "rects = ?rects" "cm = two_glyphs_mask"
    by (simp_all only: two_glyphs_shape two_glyphs_scan sum.inject prod.inject)
  from e st obtain gt eps rg m where
    gt: "lookup ?p ''rects_group_threshold'' = Inr gt"
    and eps: "lookup ?p ''rects_group_eps'' = Inr eps"
    and rg: "groupRectangles two_glyphs_cv2 ?rects gt (to_double (to_double (of_int eps) / 100))
               = Some rg"
    and m: "fix_empty_pixels two_glyphs_cv2 two_glyphs_mask = Some m"
    and nth: "\<forall>k < length rg. cut_character two_glyphs_cv2 m None None (rg ! k)
                                 = Inr (?out ! k)"
    by blast
  from gt have gt0: "gt = 0" by (simp add: lookup_def two_glyphs_values)
  from eps have eps45: "eps = 45" by (simp add: lookup_def two_glyphs_values)
  from rg gt0 have rg2: "rg = ?rects" by (simp only: two_glyphs_clustered option.inject)
  from m have m2: "m = two_glyphs_refined" by (simp only: two_glyphs_fix_empty_pixels option.inject)
  have k0: "(0 :: nat) < length ?rects" and k1: "(1 :: nat) < length ?rects" by simp_all
  from nth [unfolded rg2 m2, rule_format, OF k0]
  have c0: "cut_character two_glyphs_cv2 two_glyphs_refined None None (1, 0, 1, 2)
              = Inr (?out ! 0)" by simp
  from nth [unfolded rg2 m2, rule_format, OF k1]
  have c1: "cut_character two_glyphs_cv2 two_glyphs_refined None None (0, 0, 3, 3)
              = Inr (?out ! 1)" by simp
  show ?thesis
    apply (rule conjI, rule two_glyphs_result)
    apply (rule conjI, rule two_glyphs_scan)
    apply (rule conjI, rule two_glyphs_clustered)
    apply (rule conjI, rule two_glyphs_fix_empty_pixels)
    apply (rule conjI, rule c0)
    apply (rule c1)
    done
qed

text \<open>
  The claim as it was worded (ascending \<open>x\<close> whatever the order of the sweep and the
  clusterer) fails at the entry point: on \<open>two_glyphs\<close> the sweep accepts the rectangle of
  the grey glyph at \<open>x = 1\<close> and then the rectangle at \<open>x = 0\<close> of the fill seeded on the
  black glyph, the clusterer returns them in that order, and the character cut at \<open>x = 1\<close>
  is returned before the one cut at \<open>x = 0\<close>.
\<close>

theorem unsorted_output_counterexample:
  "snd (extract_characters two_glyphs_cv2 two_glyphs None None False (Some two_glyphs_params))
     = Inr [crop two_glyphs_refined (1, 0, 1, 2), crop two_glyphs_refined (0, 0, 3, 3)]
   \<and> scan two_glyphs_cv2 (resolve (Some two_glyphs_params)) False two_glyphs_masked
        two_glyphs_mask 3 3 (39, 39, 39) [0..<3] ([], zeros 3 3)
       = Inr ([(1, 0, 1, 2), (0, 0, 3, 3)], two_glyphs_mask)
   \<and> groupRectangles two_glyphs_cv2 [(1, 0, 1, 2), (0, 0, 3, 3)] 0
        (to_double (to_double (of_int 45) / 100)) = Some [(1, 0, 1, 2), (0, 0, 3, 3)]
   \<and> fix_empty_pixels two_glyphs_cv2 two_glyphs_mask = Some two_glyphs_refined
   \<and> crop two_glyphs_refined (1, 0, 1, 2) \<noteq> crop two_glyphs_refined (0, 0, 3, 3)
   \<and> \<not> sorted (map fst [(1, 0, 1, 2), (0, 0, 3, 3) :: rect])"
proof -
  have c: "crop two_glyphs_refined (1, 0, 1, 2) = [[255], [255]]"
    "crop two_glyphs_refined (0, 0, 3, 3) = two_glyphs_refined"
    by (simp_all add: crop_def slice2_def py_slice_def two_glyphs_refined_def)
  have "[[255 :: pixel], [255]] \<noteq> two_glyphs_refined"
    by (simp add: two_glyphs_refined_def)
  with c two_glyphs_result two_glyphs_scan two_glyphs_clustered two_glyphs_fix_empty_pixels
  show ?thesis by simp
qed

text \<open>
  C3. When the size check passes, the stages before the sweep succeed and the sweep accepts no
  rectangle, \<^verbatim>\<open>extract_characters\<close> returns the empty list and raises nothing; grouping,
  refining and cutting are not reached.
\<close>

theorem no_candidate_returns_empty:
  assumes "\<not> exceeds output_width (shape1 img)"
    and "\<not> exceeds output_height (shape0 img)"
    and "background_mask cv (resolve params_arg) img = Inr no_background_mask"
    and "remove_background cv img no_background_mask = Inr image_masked"
    and "lookup (resolve params_arg) ''floodfill_threshold'' = Inr t"
    and "scan cv (resolve params_arg) debug image_masked no_background_mask
           (shape1 img) (shape0 img) (t, t, t) [0..<shape1 img]
           ([], zeros (shape0 img) (shape1 img)) = Inr ([], characters_mask)"
  shows "snd (extract_characters cv img output_width output_height debug params_arg) = Inr []"
  using assms by (simp add: extract_characters_def segment_def group_and_cut_def)

theorem no_candidate_returns_empty_witness:
  "\<not> exceeds (Some 1) (shape1 black_pixel) \<and> \<not> exceeds (Some 1) (shape0 black_pixel)
   \<and> background_mask black_pixel_cv2 (resolve None) black_pixel = Inr [[255]]
   \<and> remove_background black_pixel_cv2 black_pixel [[255]] = Inr black_pixel
   \<and> lookup (resolve None) ''floodfill_threshold'' = Inr 39
   \<and> scan black_pixel_cv2 (resolve None) True black_pixel [[255]]
        (shape1 black_pixel) (shape0 black_pixel) (39, 39, 39) [0..<shape1 black_pixel]
        ([], zeros (shape0 black_pixel) (shape1 black_pixel)) = Inr ([], zeros 1 1)
   \<and> snd (extract_characters black_pixel_cv2 black_pixel (Some 1) (Some 1) True None) = Inr []"
proof -
  have a: "\<not> exceeds (Some 1) (shape1 black_pixel)" "\<not> exceeds (Some 1) (shape0 black_pixel)"
    by (simp_all add: exceeds_def black_pixel_shape)
  have b: "background_mask black_pixel_cv2 (resolve None) black_pixel = Inr [[255]]"
    by (rule black_pixel_background_mask [OF default_values(1-5)])
  have c: "lookup (resolve None) ''floodfill_threshold'' = Inr 39"
    by (simp add: lookup_def default_values)
  have d: "scan black_pixel_cv2 (resolve None) True black_pixel [[255]]
        (shape1 black_pixel) (shape0 black_pixel) (39, 39, 39) [0..<shape1 black_pixel]
        ([], zeros (shape0 black_pixel) (shape1 black_pixel)) = Inr ([], zeros 1 1)"
    by (simp add: black_pixel_shape upt_one black_pixel_step_default del: One_nat_def upt_Suc)
  from no_candidate_returns_empty [OF a b black_pixel_remove_background c d] a b c d
    black_pixel_remove_background
  show ?thesis by simp
qed




text \<open>
  C5. The claim: the character mask of a candidate is the AND of the fill restricted to the
  image (filled pixel \<open>(x, y)\<close> at 255 in \<open>(x, y)\<close>) with the background mask. Line 168
  drops the last two rows and columns of the mask instead of its border, so the fill is read one
  pixel down and to the right and the border of ones is read as filled. On the one-row image
  of two inks the code marks all six foreground pixels although only three were filled.
\<close>

theorem fill_mask_shifted:
  "character_mask_of two_inks_fill two_inks_mask = Some [[255, 255, 255, 255, 255, 255, 0, 0]]
   \<and> character_mask_spec two_inks_fill two_inks_mask = Some [[255, 255, 255, 0, 0, 0, 0, 0]]"
  by (simp add: character_mask_of_def character_mask_spec_def two_inks_fill_def
      two_inks_mask_def slice2_def py_slice_def bitwise_and_def same_shape_def)

text \<open>
  C6. For one image (the same background mask, composited image and library), two parameter
  dictionaries that differ only in \<^verbatim>\<open>min_character_width\<close>,
  \<^verbatim>\<open>min_character_height\<close> and \<^verbatim>\<open>min_pixel_density\<close>, each value of the first at
  most that of the second: whenever both sweeps complete, the rectangles accepted under the larger
  thresholds are a subsequence of those accepted under the smaller ones, so their number does
  not decrease and every one of them is accepted again.
\<close>

theorem lower_thresholds_accept_more:
  assumes same: "\<forall>k. k \<notin> {''min_character_width'', ''min_character_height'',
                         ''min_pixel_density''} \<longrightarrow> p_small k = p_big k"
    and w: "p_small ''min_character_width'' = Some w1" "p_big ''min_character_width'' = Some w2"
      "w1 \<le> w2"
    and h: "p_small ''min_character_height'' = Some h1" "p_big ''min_character_height'' = Some h2"
      "h1 \<le> h2"
    and d: "p_small ''min_pixel_density'' = Some d1" "p_big ''min_pixel_density'' = Some d2"
      "d1 \<le> d2"
    and big: "scan cv p_big debug image_masked no_background_mask image_w image_h
                color_threshold xs (rects_big0, mask_big0) = Inr (rects_big, mask_big)"
    and small: "scan cv p_small debug image_masked no_background_mask image_w image_h
                color_threshold xs (rects_small0, mask_small0) = Inr (rects_small, mask_small)"
    and sub: "subseq rects_big0 rects_small0"
  shows "subseq rects_big rects_small \<and> length rects_big \<le> length rects_small
       \<and> set rects_big \<subseteq> set rects_small"
proof -
  have "subseq rects_big rects_small"
    using big small sub
  proof (induction xs arbitrary: rects_big0 mask_big0 rects_small0 mask_small0)
    case Nil
    then show ?case by simp
  next
    case (Cons x xs)
    obtain rb mb where
      b1: "scan_step cv p_big debug image_masked no_background_mask image_w image_h
             color_threshold x (rects_big0, mask_big0) = Inr (rb, mb)"
      and b2: "scan cv p_big debug image_masked no_background_mask image_w image_h
             color_threshold xs (rb, mb) = Inr (rects_big, mask_big)"
    proof (cases "scan_step cv p_big debug image_masked no_background_mask image_w image_h
             color_threshold x (rects_big0, mask_big0)")
      case (Inl e)
      with Cons.prems(1) show ?thesis by simp
    next
      case (Inr st)
      with Cons.prems(1) that [of "fst st" "snd st"] show ?thesis by simp
    qed
    obtain rs ms where
      s1: "scan_step cv p_small debug image_masked no_background_mask image_w image_h
             color_threshold x (rects_small0, mask_small0) = Inr (rs, ms)"
      and s2: "scan cv p_small debug image_masked no_background_mask image_w image_h
             color_threshold xs (rs, ms) = Inr (rects_small, mask_small)"
    proof (cases "scan_step cv p_small debug image_masked no_background_mask image_w image_h
             color_threshold x (rects_small0, mask_small0)")
      case (Inl e)
      with Cons.prems(2) show ?thesis by simp
    next
      case (Inr st)
      with Cons.prems(2) that [of "fst st" "snd st"] show ?thesis by simp
    qed
    have "subseq rb rs"
      by (rule scan_step_loosened [OF same w h d b1 s1 Cons.prems(3)])
    from Cons.IH [OF b2 s2 this] show ?case .
  qed
  moreover from this have "length rects_big \<le> length rects_small"
    by (rule list_emb_length)
  moreover have "set rects_big \<subseteq> set rects_small"
  proof
    fix r
    assume "r \<in> set rects_big"
    from list_emb_set [OF \<open>subseq rects_big rects_small\<close> this]
    show "r \<in> set rects_small" by blast
  qed
  ultimately show ?thesis by simp
qed

theorem lower_thresholds_accept_more_witness:
  "resolve (Some small_glyphs) ''min_character_width'' = Some 1
   \<and> resolve None ''min_character_width'' = Some 34
   \<and> resolve (Some small_glyphs) ''min_character_height'' = Some 1
   \<and> resolve None ''min_character_height'' = Some 34
   \<and> resolve (Some small_glyphs) ''min_pixel_density'' = Some 12
   \<and> resolve None ''min_pixel_density'' = Some 12
   \<and> scan black_pixel_cv2 (resolve None) False black_pixel [[255]] 1 1 (39, 39, 39) [0]
        ([], zeros 1 1) = Inr ([], zeros 1 1)
   \<and> scan black_pixel_cv2 (resolve (Some small_glyphs)) False black_pixel [[255]] 1 1
        (39, 39, 39) [0] ([], zeros 1 1) = Inr ([(0, 0, 1, 1)], [[255]])
   \<and> subseq ([] :: rect list) [(0, 0, 1, 1)]
   \<and> length ([] :: rect list) \<le> length [(0, 0, 1, 1) :: rect]"
proof -
  have same: "\<forall>k. k \<notin> {''min_character_width'', ''min_character_height'', ''min_pixel_density''}
        \<longrightarrow> resolve (Some small_glyphs) k = resolve None k"
    by (simp add: resolve_at small_glyphs_def)
  have big: "scan black_pixel_cv2 (resolve None) False black_pixel [[255]] 1 1 (39, 39, 39) [0]
        ([], zeros 1 1) = Inr ([], zeros 1 1)"
    by (simp add: black_pixel_step_default del: One_nat_def)
  have small: "scan black_pixel_cv2 (resolve (Some small_glyphs)) False black_pixel [[255]] 1 1
        (39, 39, 39) [0] ([], zeros 1 1) = Inr ([(0, 0, 1, 1)], [[255]])"
    by (simp add: black_pixel_step_small del: One_nat_def)
  have le: "(1 :: int) \<le> 34" "(12 :: int) \<le> 12" by simp_all
  from lower_thresholds_accept_more [OF same small_values(7) default_values(7) le(1)
      small_values(9) default_values(9) le(1) small_values(11) default_values(11) le(2)
      big small] big small small_values default_values
  show ?thesis by simp
qed

text \<open>
  C7. The claim: dilating and then eroding a refined mask again changes nothing. With the tuple
  \<^verbatim>\<open>(3, 3)\<close> as the kernel both operations look one pixel up, so the refiner moves the
  mask one pixel down: applied to a single set pixel it yields the pixel below, and applied
  again it yields the empty mask.
\<close>

theorem refiner_not_idempotent:
  "fix_empty_pixels cv stroke = Some [[0], [0], [255]]
   \<and> fix_empty_pixels cv [[0], [0], [255]] = Some [[0], [0], [0]]"
  by (simp add: fix_empty_pixels_def dilate_def erode_def stroke_def shape0_def shape1_def
      column_kernel_def)

text \<open>
  C8. When a width and a height are requested, every character that \<^verbatim>\<open>extract_characters\<close>
  returns has exactly that height and width. Every pixel of a character is a pixel of the
  rectangle it was cut from (arrays being rectangular): if all pixels of the cut are 0 or 255,
  so are all pixels of the character.
\<close>

theorem resized_characters:
  "(snd (extract_characters cv img (Some ow) (Some oh) debug params_arg) = Inr returned
      \<longrightarrow> (\<forall>c \<in> set returned.
             int (shape0 c) = oh \<and> (\<forall>row \<in> set c. int (length row) = ow)))
   \<and> (cut_characters cv characters_mask (Some ow) (Some oh) rects_grouped = Inr characters
       \<and> (\<forall>row \<in> set characters_mask. length row = shape1 characters_mask)
      \<longrightarrow> length characters = length rects_grouped
        \<and> (\<forall>k < length characters.
             int (shape0 (characters ! k)) = oh
           \<and> (\<forall>row \<in> set (characters ! k). int (length row) = ow)
           \<and> ((\<forall>row \<in> set (crop characters_mask (rects_grouped ! k)).
                  \<forall>v \<in> set row. v = 0 \<or> v = 255)
               \<longrightarrow> (\<forall>row \<in> set (characters ! k). \<forall>v \<in> set row. v = 0 \<or> v = 255))))"
proof (intro conjI impI)
  assume "snd (extract_characters cv img (Some ow) (Some oh) debug params_arg) = Inr returned"
  from extract_characters_returns [OF this]
  show "\<forall>c \<in> set returned. int (shape0 c) = oh \<and> (\<forall>row \<in> set c. int (length row) = ow)"
  proof
    assume "returned = []"
    then show ?thesis by simp
  next
    assume "\<exists>rects group_threshold eps rects_grouped m.
             groupRectangles cv rects group_threshold eps = Some rects_grouped
             \<and> cut_characters cv m (Some ow) (Some oh) rects_grouped = Inr returned"
    then obtain rg m where cut: "cut_characters cv m (Some ow) (Some oh) rg = Inr returned"
      by blast
    show ?thesis
    proof
      fix c
      assume "c \<in> set returned"
      then obtain k where k: "k < length returned" "c = returned ! k"
        by (auto simp: in_set_conv_nth)
      from cut_characters_nth [OF cut] k
      have "cut_character cv m (Some ow) (Some oh) (rg ! k) = Inr c" by simp
      then have "resize cv (crop m (rg ! k)) (ow, oh) = Some c"
        by (cases "resize cv (crop m (rg ! k)) (ow, oh)") (simp_all add: cut_character_def)
      then show "int (shape0 c) = oh \<and> (\<forall>row \<in> set c. int (length row) = ow)"
        by (rule resize_shape)
    qed
  qed
next
  assume a: "cut_characters cv characters_mask (Some ow) (Some oh) rects_grouped = Inr characters
       \<and> (\<forall>row \<in> set characters_mask. length row = shape1 characters_mask)"
  then have cut: "cut_characters cv characters_mask (Some ow) (Some oh) rects_grouped
                    = Inr characters"
    and rect: "\<forall>row \<in> set characters_mask. length row = shape1 characters_mask" by simp_all
  from cut_characters_nth [OF cut] have len: "length characters = length rects_grouped"
    and nth: "\<forall>k < length rects_grouped.
                cut_character cv characters_mask (Some ow) (Some oh) (rects_grouped ! k)
                  = Inr (characters ! k)" by simp_all
  show "length characters = length rects_grouped" by (rule len)
  show "\<forall>k < length characters.
             int (shape0 (characters ! k)) = oh
           \<and> (\<forall>row \<in> set (characters ! k). int (length row) = ow)
           \<and> ((\<forall>row \<in> set (crop characters_mask (rects_grouped ! k)).
                  \<forall>v \<in> set row. v = 0 \<or> v = 255)
               \<longrightarrow> (\<forall>row \<in> set (characters ! k). \<forall>v \<in> set row. v = 0 \<or> v = 255))"
  proof (intro allI impI)
    fix k
    assume k: "k < length characters"
    let ?src = "crop characters_mask (rects_grouped ! k)"
    from nth k len have "cut_character cv characters_mask (Some ow) (Some oh) (rects_grouped ! k)
                  = Inr (characters ! k)" by simp
    then have r: "resize cv ?src (ow, oh) = Some (characters ! k)"
      by (cases "resize cv ?src (ow, oh)") (simp_all add: cut_character_def)
    have rows: "\<forall>r \<in> set ?src. length r = shape1 ?src"
      using rect by (rule crop_rows)
    have "\<forall>row \<in> set (characters ! k). \<forall>v \<in> set row. v = 0 \<or> v = 255"
      if bin: "\<forall>row \<in> set ?src. \<forall>v \<in> set row. v = 0 \<or> v = 255"
    proof (intro ballI)
      fix row v
      assume "row \<in> set (characters ! k)" "v \<in> set row"
      from resize_values [OF r rows this] bin show "v = 0 \<or> v = 255" by blast
    qed
    with resize_shape [OF r]
    show "int (shape0 (characters ! k)) = oh
           \<and> (\<forall>row \<in> set (characters ! k). int (length row) = ow)
           \<and> ((\<forall>row \<in> set ?src. \<forall>v \<in> set row. v = 0 \<or> v = 255)
               \<longrightarrow> (\<forall>row \<in> set (characters ! k). \<forall>v \<in> set row. v = 0 \<or> v = 255))"
      by blast
  qed
qed

theorem resized_characters_witness:
  "snd (extract_characters black_pixel_cv2 black_pixel (Some 1) (Some 1) False
          (Some single_glyph)) = Inr [[[255]]]
   \<and> int (shape0 [[255 :: pixel]]) = 1 \<and> map length [[255 :: pixel]] = [1]
   \<and> cut_characters black_pixel_cv2 checker (Some 2) (Some 1) [(0, 0, 2, 2)] = Inr [[[0, 255]]]
   \<and> map length checker = [shape1 checker, shape1 checker]
   \<and> crop checker (0, 0, 2, 2) = [[0, 255], [255, 0]]
   \<and> int (shape0 [[0, 255 :: pixel]]) = 1
   \<and> map length [[0, 255 :: pixel]] = [2]"
proof -
  have rows: "\<forall>row \<in> set checker. length row = shape1 checker"
    by (simp add: checker_def shape1_def)
  have len: "(0 :: nat) < length [[[0, 255 :: pixel]]]" by simp
  have mem: "[[255 :: pixel]] \<in> set [[[255 :: pixel]]]" by simp
  from resized_characters [where cv = black_pixel_cv2 and img = black_pixel and ow = 1
      and oh = 1 and debug = False and params_arg = "Some single_glyph"
      and returned = "[[[255]]]"] black_pixel_single(2) mem
  have 1: "int (shape0 [[255 :: pixel]]) = 1" by blast
  from resized_characters [where cv = black_pixel_cv2 and ow = 2 and oh = 1
      and characters_mask = checker and rects_grouped = "[(0, 0, 2, 2)]"
      and characters = "[[[0, 255]]]"] checker_resized rows len
  have 2: "int (shape0 ([[[0, 255 :: pixel]]] ! 0)) = 1" by blast
  have "map length checker = [shape1 checker, shape1 checker]"
    "crop checker (0, 0, 2, 2) = [[0, 255], [255, 0]]"
    by (simp_all add: checker_def shape1_def crop_def slice2_def py_slice_def)
  with 1 2 checker_resized black_pixel_single(2) show ?thesis by simp
qed

text \<open>
  C9. The key \<^verbatim>\<open>group_threshold\<close> is never read: two calls whose dictionaries agree on
  every other key return the same list or raise the same exception, whatever the image, the
  requested size and the library.
\<close>

theorem group_threshold_unused:
  assumes "\<forall>k. k \<noteq> ''group_threshold'' \<longrightarrow> p1 k = p2 k"
  shows "snd (extract_characters cv img output_width output_height debug (Some p1))
       = snd (extract_characters cv img output_width output_height debug (Some p2))"
proof -
  have "\<forall>k. k \<noteq> ''group_threshold'' \<longrightarrow> resolve (Some p1) k = resolve (Some p2) k"
    using assms by (simp add: resolve_eq)
  then have "segment cv img output_width output_height debug (resolve (Some p1))
           = segment cv img output_width output_height debug (resolve (Some p2))"
    by (rule segment_agree)
  then show ?thesis by (simp add: extract_characters_def)
qed

theorem group_threshold_unused_witness:
  "snd (extract_characters black_pixel_cv2 black_pixel None None False
            (Some (small_glyphs(''group_threshold'' \<mapsto> 2))))
     = snd (extract_characters black_pixel_cv2 black_pixel None None False
            (Some (small_glyphs(''group_threshold'' \<mapsto> 7))))"
proof -
  have h: "\<forall>k. k \<noteq> ''group_threshold'' \<longrightarrow>
       (small_glyphs(''group_threshold'' \<mapsto> 2)) k = (small_glyphs(''group_threshold'' \<mapsto> 7)) k"
    by simp
  from group_threshold_unused [OF h] show ?thesis .
qed

text \<open>
  C10. A dictionary passed by the caller is written to in place: after the call it holds the
  default of each of the 14 default keys that was absent, the caller's value of every key that
  was present, nothing else new, and so every default key.
\<close>

theorem caller_dictionary_filled:
  "fst (extract_characters cv img output_width output_height debug (Some p))
     = Some (fix_params PARAMS_DEFAULT p)
   \<and> length PARAMS_DEFAULT = 14
   \<and> distinct (map fst PARAMS_DEFAULT)
   \<and> (\<forall>k v. (k, v) \<in> set PARAMS_DEFAULT \<and> p k = None
          \<longrightarrow> fix_params PARAMS_DEFAULT p k = Some v)
   \<and> (\<forall>k v. p k = Some v \<longrightarrow> fix_params PARAMS_DEFAULT p k = Some v)
   \<and> (\<forall>k. k \<notin> fst ` set PARAMS_DEFAULT \<longrightarrow> fix_params PARAMS_DEFAULT p k = p k)
   \<and> (\<forall>k \<in> fst ` set PARAMS_DEFAULT. fix_params PARAMS_DEFAULT p k \<noteq> None)"
proof -
  have a: "fst (extract_characters cv img output_width output_height debug (Some p))
     = Some (fix_params PARAMS_DEFAULT p)"
    by (simp add: extract_characters_def)
  have b: "length PARAMS_DEFAULT = 14" by (simp add: PARAMS_DEFAULT_def)
  have c: "\<forall>k v. (k, v) \<in> set PARAMS_DEFAULT \<and> p k = None
          \<longrightarrow> fix_params PARAMS_DEFAULT p k = Some v"
    using default_distinct by (simp add: fix_params_absent)
  have d: "\<forall>k v. p k = Some v \<longrightarrow> fix_params PARAMS_DEFAULT p k = Some v"
    by (simp add: fix_params_keeps)
  have e: "\<forall>k. k \<notin> fst ` set PARAMS_DEFAULT \<longrightarrow> fix_params PARAMS_DEFAULT p k = p k"
    by (auto simp: fix_params_eq map_of_eq_None_iff split: option.splits)
  have f: "\<forall>k \<in> fst ` set PARAMS_DEFAULT. fix_params PARAMS_DEFAULT p k \<noteq> None"
    by (auto simp: fix_params_eq split: option.splits dest: weak_map_of_SomeI)
  from a b c d e f default_distinct show ?thesis by blast
qed

theorem caller_dictionary_filled_witness:
  "(''floodfill_threshold'', 39) \<in> set PARAMS_DEFAULT
   \<and> small_glyphs ''floodfill_threshold'' = None
   \<and> small_glyphs ''min_character_width'' = Some 1
   \<and> ''training_epochs'' \<notin> fst ` set PARAMS_DEFAULT
   \<and> ''group_threshold'' \<in> fst ` set PARAMS_DEFAULT
   \<and> fst (extract_characters black_pixel_cv2 black_pixel None None False (Some small_glyphs))
       = Some (fix_params PARAMS_DEFAULT small_glyphs)
   \<and> fix_params PARAMS_DEFAULT small_glyphs ''floodfill_threshold'' = Some 39
   \<and> fix_params PARAMS_DEFAULT small_glyphs ''min_character_width'' = Some 1
   \<and> fix_params PARAMS_DEFAULT small_glyphs ''training_epochs''
       = small_glyphs ''training_epochs''
   \<and> fix_params PARAMS_DEFAULT small_glyphs ''group_threshold'' \<noteq> None"
proof -
  have a: "(''floodfill_threshold'', 39) \<in> set PARAMS_DEFAULT"
    by (simp add: PARAMS_DEFAULT_def)
  have b: "small_glyphs ''floodfill_threshold'' = None"
    "small_glyphs ''min_character_width'' = Some 1"
    by (simp_all add: small_glyphs_def)
  have c: "''training_epochs'' \<notin> fst ` set PARAMS_DEFAULT"
    by (simp add: PARAMS_DEFAULT_def)
  have d: "''group_threshold'' \<in> fst ` set PARAMS_DEFAULT"
    by (simp add: PARAMS_DEFAULT_def)
  from caller_dictionary_filled [of black_pixel_cv2 black_pixel None None False small_glyphs]
    a b c d
  show ?thesis by blast
qed

end
